theory Spec2Isabelle
  imports Complex_Main "HOL-Library.Char_ord" "HOL-Library.List_Lexorder" "HOL-Library.Log_Nat"
begin

section \<open>Data model\<close>

text \<open>
  A spreadsheet cell as pandas hands it to \<^verbatim>\<open>aggregator.py\<close>: missing (\<^verbatim>\<open>NaN\<close>), a text
  value or an integer. Identifiers, regions and programs are compared for equality only,
  scores are only tested for presence.
\<close>

datatype cell = NaN | Str string | Num int

text \<open>Errors of the Python run time that the aggregation can end in.\<close>

datatype py_error = TypeError

text \<open>
  A raw tabular unit (one sheet of a workbook): \<^verbatim>\<open>df.columns\<close> and the rows under them.
  \<^verbatim>\<open>read_excel\<close> makes the column names unique.
\<close>

record sheet =
  columns :: "string list"
  rows :: "cell list list"

text \<open>
  The ten canonical fields. The three date fields change their type in
  \<^verbatim>\<open>apply_business_rules\<close> (parsed time stamps), hence the parameter \<open>'d\<close>; the
  parameter \<open>'p\<close> is the type of the program field.
\<close>

record ('p, 'd) row =
  region :: cell
  ignator_id :: cell
  student_id :: cell
  session_id :: cell
  program :: 'p
  session_date :: 'd
  da_pre_score :: cell
  da_post_score :: cell
  da_pre_date :: 'd
  da_post_date :: 'd

text \<open>
  A time stamp is \<^verbatim>\<open>datetime64[ns]\<close>: nanoseconds since the epoch; \<^verbatim>\<open>NaT\<close> is \<open>None\<close>.
\<close>

type_synonym timestamp = int

record ('p, 'd) flagged = "('p, 'd) row" +
  is_excluded_program :: bool
  has_pre :: bool
  has_post :: bool
  prepost_same_date :: bool
  valid_prepost_pair :: bool

type_synonym raw_record = "(cell, cell) row"
type_synonym flagged_record = "(cell, timestamp option) flagged"

text \<open>
  What the code takes from pandas and what differs between its versions and between the
  types of a column:
  \<^item> \<open>parse_date\<close>: the date parser of \<^verbatim>\<open>pd.to_datetime\<close> on an entry that is not missing
    (\<open>None\<close> where the entry does not parse);
  \<^item> \<open>str_keeps_missing\<close>: whether \<^verbatim>\<open>.astype(str)\<close> leaves a missing entry missing (pandas
    3) or makes the text \<^verbatim>\<open>nan\<close> of it (pandas 2);
  \<^item> \<open>str_of_number\<close>: the text \<^verbatim>\<open>.astype(str)\<close> makes of a number (\<^verbatim>\<open>5\<close> in a column of
    objects, \<^verbatim>\<open>5.0\<close> in a column of floats).
  Nothing is assumed of them: what is proved holds for each.
\<close>

record pandas =
  parse_date :: "cell \<Rightarrow> timestamp option"
  str_keeps_missing :: bool
  str_of_number :: "int \<Rightarrow> string"

text \<open>
  A \<^verbatim>\<open>numpy.float64\<close>: a finite value of the binary64 format, given by the rational it
  is, or one of the results of a division by zero (\<^verbatim>\<open>inf\<close>, \<^verbatim>\<open>-inf\<close>, \<^verbatim>\<open>nan\<close>). The two
  zeros of the format compare equal in Python and are the one value \<open>Fin 0\<close>.
\<close>

datatype np_float = Fin rat | PosInf | NegInf | FNaN

text \<open>One row of the aggregated table, its columns in the order of the source.\<close>

record metrics =
  Region :: cell
  Unique_Students :: int
  Unique_Ignators :: int
  Session_Count :: int
  DA_Pre :: int
  DA_Post :: int
  Completion_Rate :: np_float
  DA_Gap :: int
  Wastage :: np_float
  No_DA_Count :: int
  No_DA_List :: "cell list"

section \<open>Configuration\<close>

definition EXCLUDED_PROGRAMS :: "string list" where
  "EXCLUDED_PROGRAMS =
    [''Digikshetra'', ''Financial Literacy'', ''I-code'', ''IMSL-MATH'',
     ''Young Instructor Training'', ''Jignyasa'', ''Ecology'', ''Library'',
     ''Art & Craft'', ''Science Model Making'', ''Debate/Quiz'',
     ''Campus Tour'', ''None'', ''Plastic Waste Management'', ''Circle Time'',
     ''YAP Program'', ''IA Pre/Post'', ''Team Building Activity'']"

definition COLUMN_MAP :: "(string \<times> string list) list" where
  "COLUMN_MAP =
    [(''region'', [''Region'', ''region'']),
     (''ignator_id'', [''IgnatorID'', ''Ignator Id'', ''Q-Card ID'', ''Ignator'']),
     (''student_id'', [''StudentID'', ''Student Id'', ''Student'']),
     (''session_id'', [''SessionID'', ''Session Id'', ''Session'']),
     (''program'', [''Program'', ''Program Name'']),
     (''session_date'', [''SessionDate'', ''Date'']),
     (''da_pre_score'', [''DA_Pre_Score'', ''DA Pre Score'', ''DA Pre'']),
     (''da_post_score'', [''DA_Post_Score'', ''DA Post Score'', ''DA Post'']),
     (''da_pre_date'', [''DA_Pre_Date'', ''DA Pre Date'']),
     (''da_post_date'', [''DA_Post_Date'', ''DA Post Date''])]"

section \<open>Column operations of pandas\<close>

definition isnull :: "cell \<Rightarrow> bool" where
  "isnull c = (c = NaN)"

definition notna :: "cell \<Rightarrow> bool" where
  "notna c = (c \<noteq> NaN)"

definition fillna :: "cell \<Rightarrow> cell list \<Rightarrow> cell list" where
  "fillna v cs = map (\<lambda>c. if isnull c then v else c) cs"

definition dropna :: "cell list \<Rightarrow> cell list" where
  "dropna cs = filter notna cs"

text \<open>\<^verbatim>\<open>Series.unique()\<close>: the distinct values, each at its first appearance.\<close>

definition unique :: "'a list \<Rightarrow> 'a list" where
  "unique xs = rev (remdups (rev xs))"

text \<open>\<^verbatim>\<open>Series.nunique()\<close> (\<^verbatim>\<open>dropna=True\<close>): the number of distinct non-null values.\<close>

definition nunique :: "cell list \<Rightarrow> int" where
  "nunique cs = int (length (unique (dropna cs)))"

text \<open>\<^verbatim>\<open>Series.sum()\<close> of a boolean column: the number of \<^verbatim>\<open>True\<close> entries.\<close>

definition bool_sum :: "bool list \<Rightarrow> int" where
  "bool_sum bs = int (length (filter (\<lambda>b. b) bs))"

text \<open>
  The elementwise \<^verbatim>\<open>==\<close> of a column with a value: a missing entry equals nothing.
\<close>

definition cell_eq :: "cell \<Rightarrow> cell \<Rightarrow> bool" where
  "cell_eq a b = (a \<noteq> NaN \<and> b \<noteq> NaN \<and> a = b)"

section \<open>Normalizer\<close>

fun find_col :: "string list \<Rightarrow> string list \<Rightarrow> string option" where
  "find_col cols [] = None"
| "find_col cols (o1 # options) = (if o1 \<in> set cols then Some o1 else find_col cols options)"

text \<open>\<^verbatim>\<open>df[col]\<close> at one row.\<close>

definition cell_at :: "string list \<Rightarrow> cell list \<Rightarrow> string \<Rightarrow> cell" where
  "cell_at cols r col = (case map_of (zip cols r) col of Some c \<Rightarrow> c | None \<Rightarrow> NaN)"

text \<open>
  \<^verbatim>\<open>out[key] = df[col] if col is not None else np.nan\<close>, at one row of the unit.
\<close>

definition resolve :: "string list \<Rightarrow> cell list \<Rightarrow> string \<Rightarrow> cell" where
  "resolve cols r key =
    (case map_of COLUMN_MAP key of
       None \<Rightarrow> NaN
     | Some opts \<Rightarrow>
         (case find_col cols opts of None \<Rightarrow> NaN | Some col \<Rightarrow> cell_at cols r col))"

definition normalize_row :: "string list \<Rightarrow> cell list \<Rightarrow> raw_record" where
  "normalize_row cols r =
    \<lparr> region = resolve cols r ''region'',
      ignator_id = resolve cols r ''ignator_id'',
      student_id = resolve cols r ''student_id'',
      session_id = resolve cols r ''session_id'',
      program = resolve cols r ''program'',
      session_date = resolve cols r ''session_date'',
      da_pre_score = resolve cols r ''da_pre_score'',
      da_post_score = resolve cols r ''da_post_score'',
      da_pre_date = resolve cols r ''da_pre_date'',
      da_post_date = resolve cols r ''da_post_date'' \<rparr>"

text \<open>
  \<^verbatim>\<open>normalize_df\<close> fills an empty frame column by column. A scalar \<^verbatim>\<open>np.nan\<close> assigned
  to a frame that has no index yet makes a column of no rows, and the first column that
  is taken from the unit gives the frame the unit's index: so a unit none of whose
  columns is a known alias yields no record at all.
\<close>

definition normalize_df :: "sheet \<Rightarrow> raw_record list" where
  "normalize_df df =
    (if list_all (\<lambda>(key, opts). find_col (columns df) opts = None) COLUMN_MAP then []
     else map (normalize_row (columns df)) (rows df))"

text \<open>
  \<^verbatim>\<open>os.path.basename\<close> and the root of \<^verbatim>\<open>os.path.splitext\<close>, as \<^verbatim>\<open>posixpath\<close> has them.
  \<open>rfind\<close> is \<^verbatim>\<open>str.rfind\<close> for one character: the last index, or \<open>-1\<close>.
\<close>

definition rfind :: "string \<Rightarrow> char \<Rightarrow> int" where
  "rfind p c =
    (if c \<in> set p then int (length p) - 1 - int (length (takeWhile (\<lambda>d. d \<noteq> c) (rev p)))
     else - 1)"

definition basename :: "string \<Rightarrow> string" where
  "basename p = drop (nat (rfind p (CHR ''/'') + 1)) p"

definition splitext_root :: "string \<Rightarrow> string" where
  "splitext_root p =
    (let sepIndex = rfind p (CHR ''/'');
         dotIndex = rfind p (CHR ''.'')
     in if dotIndex > sepIndex \<and>
           list_ex (\<lambda>c. c \<noteq> CHR ''.'') (drop (nat (sepIndex + 1)) (take (nat dotIndex) p))
        then take (nat dotIndex) p
        else p)"

text \<open>
  The body of the loop over the sheets of one file \<open>f\<close> (lines 56 to 60): normalise the
  sheet, and give every record the file's name as region when the region column is
  null throughout.
\<close>

definition region_fallback :: "string \<Rightarrow> raw_record list \<Rightarrow> raw_record list" where
  "region_fallback f df =
    (if list_all (\<lambda>x. isnull (region x)) df
     then map (\<lambda>x. x\<lparr>region := Str (splitext_root (basename f))\<rparr>) df
     else df)"

definition load_sheet :: "string \<Rightarrow> sheet \<Rightarrow> raw_record list" where
  "load_sheet f sh = region_fallback f (normalize_df sh)"

text \<open>
  A file found by the glob: its path, and the sheets \<^verbatim>\<open>read_excel\<close> returns by name, or
  \<open>None\<close> when reading it raises (the file is reported and skipped).
\<close>

type_synonym workbook = "string \<times> (string \<times> sheet) list option"

definition file_frames :: "workbook \<Rightarrow> raw_record list list" where
  "file_frames w =
    (case snd w of
       None \<Rightarrow> []
     | Some xls \<Rightarrow> map (\<lambda>(sheet_name, sh). load_sheet (fst w) sh) xls)"

definition load_all_data :: "workbook list \<Rightarrow> raw_record list" where
  "load_all_data files =
    (let frames = concat (map file_frames files)
     in if frames = [] then [] else concat frames)"

section \<open>Rule Engine\<close>

text \<open>
  \<^verbatim>\<open>pd.to_datetime(..., errors='coerce')\<close>: a missing entry is \<^verbatim>\<open>NaT\<close>; on every other
  entry the date parser of pandas decides.
\<close>

definition to_datetime :: "pandas \<Rightarrow> cell \<Rightarrow> timestamp option" where
  "to_datetime pd c = (if isnull c then None else parse_date pd c)"

text \<open>\<^verbatim>\<open>.dt.date\<close>: the calendar day of a time stamp, as its number since the epoch.\<close>

definition dt_date :: "timestamp option \<Rightarrow> int option" where
  "dt_date t = map_option (\<lambda>ns. ns div 86400000000000) t"

text \<open>The elementwise \<^verbatim>\<open>==\<close> of two columns of days: \<^verbatim>\<open>NaT\<close> equals nothing.\<close>

definition date_eq :: "int option \<Rightarrow> int option \<Rightarrow> bool" where
  "date_eq a b = (case a of None \<Rightarrow> False | Some d \<Rightarrow> (case b of None \<Rightarrow> False | Some e \<Rightarrow> d = e))"

text \<open>Python's \<^verbatim>\<open>str\<close> of an integer, the text of a number in a column of objects.\<close>

function str_nat :: "nat \<Rightarrow> string" where
  "str_nat n = (if n < 10 then [char_of (48 + n)] else str_nat (n div 10) @ [char_of (48 + n mod 10)])"
  by pat_completeness auto
termination
  by (relation "measure (\<lambda>n. n)") auto

definition str_int :: "int \<Rightarrow> string" where
  "str_int i = (if i < 0 then CHR ''-'' # str_nat (nat (- i)) else str_nat (nat i))"

text \<open>
  \<^verbatim>\<open>.astype(str)\<close> at one entry. A text stays as it is. What becomes of a missing entry
  and of a number is pandas' choice.
\<close>

definition astype_str :: "pandas \<Rightarrow> cell \<Rightarrow> cell" where
  "astype_str pd c =
    (case c of
       NaN \<Rightarrow> (if str_keeps_missing pd then NaN else Str ''nan'')
     | Str s \<Rightarrow> Str s
     | Num n \<Rightarrow> Str (str_of_number pd n))"

text \<open>\<^verbatim>\<open>.isin(values)\<close> at one entry, for a list of texts: a missing entry is in no list.\<close>

definition isin :: "cell \<Rightarrow> string list \<Rightarrow> bool" where
  "isin c values = (case c of NaN \<Rightarrow> False | Str s \<Rightarrow> s \<in> set values | Num n \<Rightarrow> False)"

text \<open>
  \<^verbatim>\<open>apply_business_rules\<close> works column by column and every new column is computed from
  the entries of the same row, so it is a map over the rows; \<open>flag_record\<close> is its effect
  on one row, with the assignments in the order of the source.
\<close>

definition flag_record :: "pandas \<Rightarrow> raw_record \<Rightarrow> flagged_record" where
  "flag_record pd x =
    (let session_date' = to_datetime pd (session_date x);
         da_pre_date' = to_datetime pd (da_pre_date x);
         da_post_date' = to_datetime pd (da_post_date x);
         program' = astype_str pd (program x);
         is_excluded_program' = isin program' EXCLUDED_PROGRAMS;
         has_pre' = notna (da_pre_score x);
         has_post' = notna (da_post_score x);
         prepost_same_date' =
           (da_pre_date' \<noteq> None \<and> da_post_date' \<noteq> None \<and>
            date_eq (dt_date da_pre_date') (dt_date da_post_date'));
         valid_prepost_pair' = (has_pre' \<and> has_post' \<and> prepost_same_date')
     in \<lparr> region = region x,
          ignator_id = ignator_id x,
          student_id = student_id x,
          session_id = session_id x,
          program = program',
          session_date = session_date',
          da_pre_score = da_pre_score x,
          da_post_score = da_post_score x,
          da_pre_date = da_pre_date',
          da_post_date = da_post_date',
          is_excluded_program = is_excluded_program',
          has_pre = has_pre',
          has_post = has_post',
          prepost_same_date = prepost_same_date',
          valid_prepost_pair = valid_prepost_pair' \<rparr>)"

definition apply_business_rules :: "pandas \<Rightarrow> raw_record list \<Rightarrow> flagged_record list" where
  "apply_business_rules pd df = map (flag_record pd) df"

section \<open>Aggregator\<close>

text \<open>Rounding to the nearest integer, a tie to the even one (\<^verbatim>\<open>rint\<close>).\<close>

definition rint :: "rat \<Rightarrow> int" where
  "rint x =
    (let f = \<lfloor>x\<rfloor>; d = x - of_int f
     in if d < 1 / 2 then f else if d > 1 / 2 then f + 1 else if even f then f else f + 1)"

text \<open>
  The exponent of a positive rational: the \<open>l\<close> with \<open>2 powi l \<le> x < 2 powi (l + 1)\<close>, found
  from the lengths in bits of numerator and denominator.
\<close>

definition log2_floor :: "rat \<Rightarrow> int" where
  "log2_floor x =
    (let k = bitlen (fst (quotient_of x)) - bitlen (snd (quotient_of x))
     in if 2 powi k \<le> x then k else k - 1)"

text \<open>
  The binary64 value nearest to a rational, a tie to the even significand: the
  rounding of every arithmetic operation on \<^verbatim>\<open>float64\<close>. The significand has 53 bits. The
  counts of a table are 64 bit integers, so the quotients and their multiples by 100 and
  by 10 stay far inside the range of the normal numbers; overflow and subnormal numbers
  are left out.
\<close>

definition fl64 :: "rat \<Rightarrow> rat" where
  "fl64 x =
    (if x = 0 then 0
     else let e = log2_floor \<bar>x\<bar> - 52
          in of_int (rint (x / 2 powi e)) * 2 powi e)"

text \<open>
  The unit roundoff of binary64: half the distance of one to the next number, the bound
  of the relative error of one rounding.
\<close>

definition eps64 :: rat where
  "eps64 = 1 / 2 ^ 53"

text \<open>
  True division of two integer counts in numpy: both are converted to \<^verbatim>\<open>float64\<close> and
  divided there. A zero divisor raises nothing, the quotient is \<^verbatim>\<open>inf\<close>, \<^verbatim>\<open>-inf\<close> or \<^verbatim>\<open>nan\<close>.
\<close>

definition np_truediv :: "int \<Rightarrow> int \<Rightarrow> np_float" where
  "np_truediv a b =
    (if b = 0 then (if a > 0 then PosInf else if a < 0 then NegInf else FNaN)
     else Fin (fl64 (fl64 (of_int a) / fl64 (of_int b))))"

text \<open>The product of a \<^verbatim>\<open>float64\<close> with a Python integer, which is converted first.\<close>

fun np_mul :: "np_float \<Rightarrow> int \<Rightarrow> np_float" where
  "np_mul (Fin x) k = Fin (fl64 (x * fl64 (of_int k)))"
| "np_mul PosInf k = (if k > 0 then PosInf else if k < 0 then NegInf else FNaN)"
| "np_mul NegInf k = (if k > 0 then NegInf else if k < 0 then PosInf else FNaN)"
| "np_mul FNaN k = FNaN"

text \<open>
  \<^verbatim>\<open>round(x, 1)\<close> of a \<^verbatim>\<open>numpy.float64\<close>: the product with ten, rounded to the nearest
  integer, divided by ten, each step in \<^verbatim>\<open>float64\<close>. At the literal \<^verbatim>\<open>0.0\<close> of the guarded
  branches Python's own \<^verbatim>\<open>round\<close> gives \<^verbatim>\<open>0.0\<close> as well.
\<close>

fun round1 :: "np_float \<Rightarrow> np_float" where
  "round1 (Fin x) = Fin (fl64 (of_int (rint (fl64 (x * 10))) / 10))"
| "round1 PosInf = PosInf"
| "round1 NegInf = NegInf"
| "round1 FNaN = FNaN"

text \<open>
  Python's \<^verbatim>\<open>sorted\<close> on the region values, which hold no \<^verbatim>\<open>NaN\<close> after \<^verbatim>\<open>fillna\<close>:
  texts are ordered by their characters, numbers by value, and comparing a text with a
  number raises \<^verbatim>\<open>TypeError\<close>.
\<close>

fun texts :: "cell list \<Rightarrow> string list option" where
  "texts [] = Some []"
| "texts (Str s # cs) = map_option ((#) s) (texts cs)"
| "texts (c # cs) = None"

fun numbers :: "cell list \<Rightarrow> int list option" where
  "numbers [] = Some []"
| "numbers (Num n # cs) = map_option ((#) n) (numbers cs)"
| "numbers (c # cs) = None"

definition py_sorted :: "cell list \<Rightarrow> py_error + cell list" where
  "py_sorted cs =
    (case texts cs of
       Some ss \<Rightarrow> Inr (map Str (sort ss))
     | None \<Rightarrow>
         (case numbers cs of
            Some ns \<Rightarrow> Inr (map Num (sort ns))
          | None \<Rightarrow> Inl TypeError))"

text \<open>\<^verbatim>\<open>sub = df[df['region']==r]\<close>\<close>

definition region_sub :: "flagged_record list \<Rightarrow> cell \<Rightarrow> flagged_record list" where
  "region_sub df r = filter (\<lambda>x. cell_eq (region x) r) df"

text \<open>The rest of the loop body: the row of region \<open>r\<close>, computed from \<open>sub\<close>.\<close>

definition region_row :: "cell \<Rightarrow> flagged_record list \<Rightarrow> metrics" where
  "region_row r sub =
    (let eligible_sessions = filter (\<lambda>x. \<not> is_excluded_program x) sub;
         session_count = nunique (map session_id eligible_sessions);
         unique_students = nunique (map student_id sub);
         unique_ignators = nunique (map ignator_id sub);
         da_pre_count = bool_sum (map has_pre sub);
         da_post_count = bool_sum (map has_post sub);
         gap = da_pre_count - da_post_count;
         wastage_pct =
           (if da_pre_count > 0 then np_mul (np_truediv gap da_pre_count) 100 else Fin 0);
         completion_rate =
           (if session_count > 0 then np_mul (np_truediv da_post_count session_count) 100
            else Fin 0);
         ignators_with_sessions = unique (dropna (map ignator_id eligible_sessions));
         ignator_did_no_da =
           filter
             (\<lambda>ign.
                let ign_rows = filter (\<lambda>x. cell_eq (ignator_id x) ign) eligible_sessions
                in bool_sum (map has_pre ign_rows) = 0 \<and> bool_sum (map has_post ign_rows) = 0)
             ignators_with_sessions
     in \<lparr> Region = r,
          Unique_Students = unique_students,
          Unique_Ignators = unique_ignators,
          Session_Count = session_count,
          DA_Pre = da_pre_count,
          DA_Post = da_post_count,
          Completion_Rate = round1 completion_rate,
          DA_Gap = gap,
          Wastage = round1 wastage_pct,
          No_DA_Count = int (length ignator_did_no_da),
          No_DA_List = ignator_did_no_da \<rparr>)"

definition total_row :: "flagged_record list \<Rightarrow> metrics" where
  "total_row df =
    \<lparr> Region = Str ''TOTAL'',
      Unique_Students = nunique (map student_id df),
      Unique_Ignators = nunique (map ignator_id df),
      Session_Count = nunique (map session_id (filter (\<lambda>x. \<not> is_excluded_program x) df)),
      DA_Pre = bool_sum (map has_pre df),
      DA_Post = bool_sum (map has_post df),
      Completion_Rate =
        round1
          (np_mul
            (np_truediv (bool_sum (map has_post df))
              (max 1 (nunique (map session_id (filter (\<lambda>x. \<not> is_excluded_program x) df)))))
            100),
      DA_Gap = bool_sum (map has_pre df) - bool_sum (map has_post df),
      Wastage =
        round1
          (np_mul
            (np_truediv (bool_sum (map has_pre df) - bool_sum (map has_post df))
              (max 1 (bool_sum (map has_pre df))))
            100),
      No_DA_Count = 0,
      No_DA_List = [] \<rparr>"

text \<open>\<^verbatim>\<open>regions = df['region'].fillna('Unknown').unique()\<close>\<close>

definition regions :: "flagged_record list \<Rightarrow> cell list" where
  "regions df = unique (fillna (Str ''Unknown'') (map region df))"

text \<open>
  The loop runs over \<^verbatim>\<open>sorted(regions)\<close>, so a \<^verbatim>\<open>TypeError\<close> of the sort ends the
  aggregation before any row is made; the \<^verbatim>\<open>TOTAL\<close> row is appended last.
\<close>

definition compute_metrics :: "flagged_record list \<Rightarrow> py_error + metrics list" where
  "compute_metrics df =
    (case py_sorted (regions df) of
       Inl e \<Rightarrow> Inl e
     | Inr rs \<Rightarrow> Inr (map (\<lambda>r. region_row r (region_sub df r)) rs @ [total_row df]))"

section \<open>Example inputs\<close>

text \<open>
  A pandas for the examples: a number is taken as nanoseconds and a text does not parse
  as a date; a missing entry becomes the text \<^verbatim>\<open>nan\<close>, a number prints as Python prints
  an integer. \<open>ex_pandas3\<close> differs in keeping a missing entry missing.
\<close>

definition ex_pandas :: pandas where
  "ex_pandas =
    \<lparr> parse_date = (\<lambda>c. case c of NaN \<Rightarrow> None | Str s \<Rightarrow> None | Num n \<Rightarrow> Some n),
      str_keeps_missing = False,
      str_of_number = str_int \<rparr>"


definition raw ::
  "cell \<Rightarrow> cell \<Rightarrow> cell \<Rightarrow> cell \<Rightarrow> cell \<Rightarrow> cell \<Rightarrow> cell \<Rightarrow> cell \<Rightarrow> cell \<Rightarrow> raw_record" where
  "raw reg ign stu ses prog pre post pre_d post_d =
    \<lparr> region = reg, ignator_id = ign, student_id = stu, session_id = ses, program = prog,
      session_date = NaN, da_pre_score = pre, da_post_score = post,
      da_pre_date = pre_d, da_post_date = post_d \<rparr>"

text \<open>
  \<open>ex_a\<close>: both scores, both dates on day 0. \<open>ex_a'\<close>: the same with other times of the day.
  \<open>ex_b\<close>: a session without program and without any score. \<open>ex_c\<close>: student and ignator of \<open>ex_a\<close> in
  another region, in an excluded program. \<open>ex_d\<close>: no region, no program, a post side
  fully populated but no pre date. \<open>ex_e\<close>: the region is the text \<^verbatim>\<open>Unknown\<close>.
\<close>

definition ex_a :: raw_record where
  "ex_a = raw (Str ''North'') (Str ''i1'') (Str ''s1'') (Str ''n1'') (Str ''Math'')
            (Num 5) (Num 7) (Num 0) (Num 1000)"

definition ex_a' :: raw_record where
  "ex_a' = raw (Str ''North'') (Str ''i1'') (Str ''s1'') (Str ''n1'') (Str ''Math'')
            (Num 5) (Num 7) (Num 86399999999999) (Num 3600000000000)"

definition ex_b :: raw_record where
  "ex_b = raw (Str ''North'') (Str ''i2'') (Str ''s2'') (Str ''n2'') NaN NaN NaN NaN NaN"

definition ex_c :: raw_record where
  "ex_c = raw (Str ''South'') (Str ''i1'') (Str ''s1'') (Str ''n3'') (Str ''Library'')
            (Num 3) (Num 4) (Num 0) (Num 86400000000000)"

definition ex_d :: raw_record where
  "ex_d = raw NaN (Str ''i3'') (Str ''s3'') (Str ''n4'') NaN (Num 1) (Num 2) NaN (Num 5)"

definition ex_e :: raw_record where
  "ex_e = raw (Str ''Unknown'') (Str ''i4'') (Str ''s4'') (Str ''n5'') (Str ''Math'')
            (Num 2) NaN (Num 0) NaN"

definition ex_df :: "flagged_record list" where
  "ex_df = apply_business_rules ex_pandas [ex_a, ex_b, ex_c]"

definition ex_df_null :: "flagged_record list" where
  "ex_df_null = apply_business_rules ex_pandas [ex_a, ex_b, ex_c, ex_d]"

text \<open>\<open>ex_f\<close>: a session of an excluded program with a post score and no pre score.\<close>

definition ex_f :: raw_record where
  "ex_f = raw (Str ''South'') (Str ''i5'') (Str ''s5'') (Str ''n6'') (Str ''Library'')
            NaN (Num 4) NaN (Num 0)"

definition ex_df_excl :: "flagged_record list" where
  "ex_df_excl = apply_business_rules ex_pandas [ex_f]"

text \<open>The tables the aggregation makes of \<open>ex_df\<close> and of \<open>ex_df_excl\<close>.\<close>

definition ex_north :: metrics where
  "ex_north =
    \<lparr> Region = Str ''North'', Unique_Students = 2, Unique_Ignators = 2, Session_Count = 2,
      DA_Pre = 1, DA_Post = 1, Completion_Rate = Fin 50, DA_Gap = 0, Wastage = Fin 0,
      No_DA_Count = 1, No_DA_List = [Str ''i2''] \<rparr>"

definition ex_south :: metrics where
  "ex_south =
    \<lparr> Region = Str ''South'', Unique_Students = 1, Unique_Ignators = 1, Session_Count = 0,
      DA_Pre = 1, DA_Post = 1, Completion_Rate = Fin 0, DA_Gap = 0, Wastage = Fin 0,
      No_DA_Count = 0, No_DA_List = [] \<rparr>"

definition ex_total :: metrics where
  "ex_total =
    \<lparr> Region = Str ''TOTAL'', Unique_Students = 2, Unique_Ignators = 2, Session_Count = 2,
      DA_Pre = 2, DA_Post = 2, Completion_Rate = Fin 100, DA_Gap = 0, Wastage = Fin 0,
      No_DA_Count = 0, No_DA_List = [] \<rparr>"

definition ex_rows :: "metrics list" where
  "ex_rows = [ex_north, ex_south, ex_total]"

definition ex_south_excl :: metrics where
  "ex_south_excl =
    \<lparr> Region = Str ''South'', Unique_Students = 1, Unique_Ignators = 1, Session_Count = 0,
      DA_Pre = 0, DA_Post = 1, Completion_Rate = Fin 0, DA_Gap = - 1, Wastage = Fin 0,
      No_DA_Count = 0, No_DA_List = [] \<rparr>"

definition ex_total_excl :: metrics where
  "ex_total_excl =
    \<lparr> Region = Str ''TOTAL'', Unique_Students = 1, Unique_Ignators = 1, Session_Count = 0,
      DA_Pre = 0, DA_Post = 1, Completion_Rate = Fin 100, DA_Gap = - 1, Wastage = Fin (- 100),
      No_DA_Count = 0, No_DA_List = [] \<rparr>"

definition ex_rows_excl :: "metrics list" where
  "ex_rows_excl = [ex_south_excl, ex_total_excl]"

text \<open>
  The table of \<open>ex_df_null\<close>: the record without region is in no row of a region, and
  the row \<^verbatim>\<open>Unknown\<close> is made of no record.
\<close>

definition ex_unknown :: metrics where
  "ex_unknown =
    \<lparr> Region = Str ''Unknown'', Unique_Students = 0, Unique_Ignators = 0, Session_Count = 0,
      DA_Pre = 0, DA_Post = 0, Completion_Rate = Fin 0, DA_Gap = 0, Wastage = Fin 0,
      No_DA_Count = 0, No_DA_List = [] \<rparr>"

definition ex_total_null :: metrics where
  "ex_total_null =
    \<lparr> Region = Str ''TOTAL'', Unique_Students = 3, Unique_Ignators = 3, Session_Count = 3,
      DA_Pre = 3, DA_Post = 3, Completion_Rate = Fin 100, DA_Gap = 0, Wastage = Fin 0,
      No_DA_Count = 0, No_DA_List = [] \<rparr>"

definition ex_rows_null :: "metrics list" where
  "ex_rows_null = [ex_north, ex_south, ex_unknown, ex_total_null]"

text \<open>
  A record without region beside a record of the region \<^verbatim>\<open>Unknown\<close>, and their table.
\<close>

definition ex_df_lit :: "flagged_record list" where
  "ex_df_lit = apply_business_rules ex_pandas [ex_d, ex_e]"

definition ex_unknown_lit :: metrics where
  "ex_unknown_lit =
    \<lparr> Region = Str ''Unknown'', Unique_Students = 1, Unique_Ignators = 1, Session_Count = 1,
      DA_Pre = 1, DA_Post = 0, Completion_Rate = Fin 0, DA_Gap = 1, Wastage = Fin 100,
      No_DA_Count = 0, No_DA_List = [] \<rparr>"

definition ex_total_lit :: metrics where
  "ex_total_lit =
    \<lparr> Region = Str ''TOTAL'', Unique_Students = 2, Unique_Ignators = 2, Session_Count = 2,
      DA_Pre = 2, DA_Post = 1, Completion_Rate = Fin 50, DA_Gap = 1, Wastage = Fin 50,
      No_DA_Count = 0, No_DA_List = [] \<rparr>"

definition ex_rows_lit :: "metrics list" where
  "ex_rows_lit = [ex_unknown_lit, ex_total_lit]"

text \<open>
  Tables with rates that need rounding. \<open>ex_df_third\<close>: three eligible sessions of one
  region, three pre scores and two post scores, so the completion rate is two thirds
  (\<^verbatim>\<open>66.7\<close>) and the wastage one third (\<^verbatim>\<open>33.3\<close>). \<open>ex_df_eighty\<close>: eighty eligible sessions
  with eighty pre scores and 23 post scores; \<^verbatim>\<open>23 / 80 * 100\<close> is \<^verbatim>\<open>28.749999999999996\<close> in
  \<^verbatim>\<open>float64\<close>, which rounds to \<^verbatim>\<open>28.7\<close> (the exact quotient would round to \<^verbatim>\<open>28.8\<close>). A
  rate is given by the decimal it is nearest to.
\<close>

definition ex_df_third :: "flagged_record list" where
  "ex_df_third =
    apply_business_rules ex_pandas
      [raw (Str ''North'') (Str ''i1'') (Str ''s1'') (Str ''t1'') (Str ''Math'') (Num 1) (Num 1) NaN NaN,
       raw (Str ''North'') (Str ''i1'') (Str ''s1'') (Str ''t2'') (Str ''Math'') (Num 1) (Num 1) NaN NaN,
       raw (Str ''North'') (Str ''i1'') (Str ''s1'') (Str ''t3'') (Str ''Math'') (Num 1) NaN NaN NaN]"

definition ex_north_third :: metrics where
  "ex_north_third =
    \<lparr> Region = Str ''North'', Unique_Students = 1, Unique_Ignators = 1, Session_Count = 3,
      DA_Pre = 3, DA_Post = 2, Completion_Rate = Fin (fl64 (667 / 10)), DA_Gap = 1,
      Wastage = Fin (fl64 (333 / 10)), No_DA_Count = 0, No_DA_List = [] \<rparr>"

definition ex_rows_third :: "metrics list" where
  "ex_rows_third = [ex_north_third, ex_north_third\<lparr>Region := Str ''TOTAL''\<rparr>]"

definition ex_df_eighty :: "flagged_record list" where
  "ex_df_eighty =
    apply_business_rules ex_pandas
      (map (\<lambda>i. raw (Str ''East'') (Str ''i1'') (Str ''s1'') (Num (int i)) (Str ''Math'')
                  (Num 1) (if i < 23 then Num 1 else NaN) NaN NaN)
         [0..<80])"

definition ex_east_eighty :: metrics where
  "ex_east_eighty =
    \<lparr> Region = Str ''East'', Unique_Students = 1, Unique_Ignators = 1, Session_Count = 80,
      DA_Pre = 80, DA_Post = 23, Completion_Rate = Fin (fl64 (287 / 10)), DA_Gap = 57,
      Wastage = Fin (fl64 (712 / 10)), No_DA_Count = 0, No_DA_List = [] \<rparr>"

definition ex_rows_eighty :: "metrics list" where
  "ex_rows_eighty = [ex_east_eighty, ex_east_eighty\<lparr>Region := Str ''TOTAL''\<rparr>]"

text \<open>A unit without a region column, and one whose region column is partly filled.\<close>

definition ex_sheet_null :: sheet where
  "ex_sheet_null =
    \<lparr> columns = [''Student'', ''Session''],
      rows = [[Str ''s1'', Str ''n1''], [Str ''s2'', Str ''n2'']] \<rparr>"

definition ex_sheet_mixed :: sheet where
  "ex_sheet_mixed =
    \<lparr> columns = [''Region'', ''Student''],
      rows = [[Str ''North'', Str ''s1''], [NaN, Str ''s2'']] \<rparr>"

text \<open>A workbook of one sheet, the partly filled one.\<close>

definition ex_files :: "workbook list" where
  "ex_files = [(''data/north_2024.xlsx'', Some [(''Sheet1'', ex_sheet_mixed)])]"

section \<open>Facts about the column operations\<close>

lemma set_unique: "set (unique xs) = set xs"
  by (simp add: unique_def)

lemma distinct_unique: "distinct (unique xs)"
  by (simp add: unique_def)




lemma bool_sum_map: "bool_sum (map P xs) = int (length (filter P xs))"
  by (simp add: bool_sum_def filter_map comp_def)

lemma set_fillna:
  "set (fillna v cs) = (set cs - {NaN}) \<union> (if NaN \<in> set cs then {v} else {})"
  by (induction cs) (auto simp: fillna_def isnull_def)

section \<open>Normalizer: the region fallback\<close>

lemma list_all_isnull: "list_all (\<lambda>x. isnull (region x)) df \<longleftrightarrow> (\<forall>x\<in>set df. region x = NaN)"
  by (simp add: list_all_iff isnull_def)

lemma region_fallback_all_null:
  "\<forall>x\<in>set df. region x = NaN \<Longrightarrow>
   region_fallback f df = map (\<lambda>x. x\<lparr>region := Str (splitext_root (basename f))\<rparr>) df"
  by (simp add: region_fallback_def list_all_isnull)

lemma region_fallback_some_value:
  "\<exists>x\<in>set df. region x \<noteq> NaN \<Longrightarrow> region_fallback f df = df"
  by (auto simp: region_fallback_def list_all_isnull)

lemma resolve_region_absent:
  "find_col cols [''Region'', ''region''] = None \<Longrightarrow> resolve cols r ''region'' = NaN"
  by (simp add: resolve_def COLUMN_MAP_def)

lemma normalize_df_region_absent:
  assumes "find_col (columns sh) [''Region'', ''region''] = None"
    and "x \<in> set (normalize_df sh)"
  shows "region x = NaN"
proof -
  from assms(2) obtain r where "x = normalize_row (columns sh) r"
    by (auto simp: normalize_df_def split: if_splits)
  then show ?thesis
    using assms(1) by (simp add: normalize_row_def resolve_region_absent)
qed

lemma set_load_all_data:
  "set (load_all_data files) = (\<Union>w\<in>set files. \<Union>fr\<in>set (file_frames w). set fr)"
  by (auto simp: load_all_data_def Let_def)

lemma file_frames_cases:
  assumes "fr \<in> set (file_frames w)"
  shows "\<exists>xls nm sh. snd w = Some xls \<and> (nm, sh) \<in> set xls \<and> fr = load_sheet (fst w) sh"
proof (cases "snd w")
  case None
  with assms show ?thesis by (simp add: file_frames_def)
next
  case (Some xls)
  with assms obtain p where p: "p \<in> set xls"
    "fr = (case p of (sheet_name, sh) \<Rightarrow> load_sheet (fst w) sh)"
    by (auto simp: file_frames_def)
  obtain nm sh where "p = (nm, sh)" by (cases p)
  with p Some show ?thesis by auto
qed

section \<open>Facts about the arithmetic of \<^verbatim>\<open>float64\<close>\<close>

lemma rint_bounds: "x - 1 / 2 \<le> of_int (rint x)" "of_int (rint x) \<le> x + 1 / 2"
proof -
  define f where "f = \<lfloor>x\<rfloor>"
  define d where "d = x - of_int f"
  have d: "0 \<le> d" "d < 1"
    unfolding d_def f_def by linarith+
  have x: "x = of_int f + d"
    unfolding d_def by simp
  have r: "rint x = (if d < 1 / 2 then f else if d > 1 / 2 then f + 1 else if even f then f else f + 1)"
    unfolding rint_def Let_def d_def f_def by (rule refl)
  consider "rint x = f" "d \<le> 1 / 2" | "rint x = f + 1" "1 / 2 \<le> d"
    unfolding r by (cases "d < 1 / 2"; cases "d > 1 / 2"; cases "even f") simp_all
  then show "x - 1 / 2 \<le> of_int (rint x)"
  proof cases
    case 1
    then show ?thesis unfolding x using d by simp
  next
    case 2
    then show ?thesis unfolding x using d by simp
  qed
  consider "rint x = f" "d \<le> 1 / 2" | "rint x = f + 1" "1 / 2 \<le> d"
    unfolding r by (cases "d < 1 / 2"; cases "d > 1 / 2"; cases "even f") simp_all
  then show "of_int (rint x) \<le> x + 1 / 2"
  proof cases
    case 1
    then show ?thesis unfolding x using d by simp
  next
    case 2
    then show ?thesis unfolding x using d by simp
  qed
qed

lemma rint_ge: "of_int n \<le> x \<Longrightarrow> n \<le> rint x"
proof -
  assume "of_int n \<le> x"
  then have "(of_int n :: rat) - 1 / 2 \<le> of_int (rint x)"
    using rint_bounds(1)[of x] by linarith
  then have "(of_int n :: rat) < of_int (rint x) + 1"
    by linarith
  then have "(of_int n :: rat) < of_int (rint x + 1)"
    by simp
  then have "n < rint x + 1"
    by (simp only: of_int_less_iff)
  then show ?thesis by simp
qed

lemma rint_le: "x \<le> of_int n \<Longrightarrow> rint x \<le> n"
proof -
  assume "x \<le> of_int n"
  then have "of_int (rint x) \<le> (of_int n :: rat) + 1 / 2"
    using rint_bounds(2)[of x] by linarith
  then have "of_int (rint x) < (of_int n :: rat) + 1"
    by linarith
  then have "(of_int (rint x) :: rat) < of_int (n + 1)"
    by simp
  then have "rint x < n + 1"
    by (simp only: of_int_less_iff)
  then show ?thesis by simp
qed

lemma bitlen_powi:
  assumes "0 < p"
  shows "2 powi (bitlen p - 1) \<le> (of_int p :: rat)" "(of_int p :: rat) < 2 powi (bitlen p)"
proof -
  from bitlen_bounds[OF assms]
  have b: "2 ^ nat (bitlen p - 1) \<le> p" "p < 2 ^ nat (bitlen p)"
    by simp_all
  have g: "1 \<le> bitlen p"
    using assms bitlen_eq_zero_iff[of p] bitlen_nonneg[of p] by linarith
  have "(of_int (2 ^ nat (bitlen p - 1)) :: rat) \<le> of_int p"
    using b(1) by (simp only: of_int_le_iff)
  then show "2 powi (bitlen p - 1) \<le> (of_int p :: rat)"
    using g by (simp add: power_int_def)
  have "(of_int p :: rat) < of_int (2 ^ nat (bitlen p))"
    using b(2) by (simp only: of_int_less_iff)
  then show "(of_int p :: rat) < 2 powi (bitlen p)"
    using g by (simp add: power_int_def)
qed

lemma log2_floor_bounds:
  assumes "0 < x"
  shows "2 powi (log2_floor x) \<le> x" "x < 2 powi (log2_floor x + 1)"
proof -
  obtain p q where pq: "quotient_of x = (p, q)"
    by (cases "quotient_of x")
  have q: "0 < q"
    using pq by (rule quotient_of_denom_pos)
  have x: "x = of_int p / of_int q"
    using pq by (rule quotient_of_div)
  have p: "0 < p"
    using assms q unfolding x by (simp add: zero_less_divide_iff)
  define k where "k = bitlen p - bitlen q"
  note bp = bitlen_powi[OF p] and bq = bitlen_powi[OF q]
  have Q: "(0::rat) < of_int q" using q by simp
  have up: "x < 2 powi (k + 1)"
  proof -
    have "x * of_int q < (2::rat) powi (bitlen p)"
      unfolding x using bp(2) Q by simp
    also have "\<dots> = 2 powi (k + 1) * 2 powi (bitlen q - 1)"
      unfolding k_def by (simp flip: power_int_add)
    also have "\<dots> \<le> 2 powi (k + 1) * of_int q"
      using bq(1) by (intro mult_left_mono) simp_all
    finally show ?thesis
      using Q by simp
  qed
  have lo: "2 powi (k - 1) \<le> x"
  proof -
    have "(2::rat) powi (k - 1) * of_int q \<le> 2 powi (k - 1) * 2 powi (bitlen q)"
      using bq(2) by (intro mult_left_mono) simp_all
    also have "\<dots> = 2 powi (bitlen p - 1)"
      unfolding k_def by (simp flip: power_int_add)
    also have "\<dots> \<le> x * of_int q"
      unfolding x using bp(1) Q by simp
    finally show ?thesis
      using Q by simp
  qed
  have l: "log2_floor x = (if 2 powi k \<le> x then k else k - 1)"
    unfolding log2_floor_def pq k_def by simp
  show "2 powi (log2_floor x) \<le> x"
    unfolding l using lo by simp
  show "x < 2 powi (log2_floor x + 1)"
    unfolding l using up by (simp add: not_le)
qed

lemma fl64_zero: "fl64 0 = 0"
  by (simp add: fl64_def)

lemma fl64_abs_ge:
  assumes "x \<noteq> 0"
  shows "2 powi (log2_floor \<bar>x\<bar>) \<le> \<bar>fl64 x\<bar>"
proof -
  define l where "l = log2_floor \<bar>x\<bar>"
  define e where "e = l - 52"
  define y where "y = x / 2 powi e"
  define K :: int where "K = 2 ^ 52"
  have K: "(of_int K :: rat) = 2 powi 52"
    unfolding K_def by simp
  have ax: "0 < \<bar>x\<bar>" using assms by simp
  have lo: "2 powi l \<le> \<bar>x\<bar>"
    unfolding l_def using ax by (rule log2_floor_bounds(1))
  have pe: "(0::rat) < 2 powi e" by simp
  have f: "fl64 x = of_int (rint y) * 2 powi e"
    unfolding fl64_def y_def e_def l_def Let_def using assms by simp
  have "l = 52 + e"
    unfolding e_def by simp
  then have "(2::rat) powi l = 2 powi (52 + e)"
    by (rule arg_cong)
  also have "\<dots> = 2 powi 52 * 2 powi e"
    by (rule power_int_add) simp
  finally have l52: "(2::rat) powi l = of_int K * 2 powi e"
    unfolding K .
  have ay: "of_int K \<le> \<bar>y\<bar>"
  proof -
    have "(of_int K :: rat) * 2 powi e \<le> \<bar>x\<bar>"
      using lo unfolding l52 .
    then have "of_int K \<le> \<bar>x\<bar> / 2 powi e"
      using pe by (simp add: pos_le_divide_eq)
    then show ?thesis
      unfolding y_def by simp
  qed
  have r: "K \<le> \<bar>rint y\<bar>"
  proof (cases "0 \<le> y")
    case True
    then have "of_int K \<le> y"
      using ay by simp
    then have "K \<le> rint y"
      by (rule rint_ge)
    then show ?thesis by simp
  next
    case False
    then have "y \<le> of_int (- K)"
      using ay by simp
    then have "rint y \<le> - K"
      by (rule rint_le)
    then show ?thesis by simp
  qed
  then have "(of_int K :: rat) \<le> of_int \<bar>rint y\<bar>"
    by (simp only: of_int_le_iff)
  then have "(of_int K :: rat) \<le> \<bar>of_int (rint y)\<bar>"
    by simp
  then have "(of_int K :: rat) * 2 powi e \<le> \<bar>of_int (rint y)\<bar> * 2 powi e"
    using pe by (intro mult_right_mono) simp_all
  then show ?thesis
    unfolding f l52 l_def[symmetric] by (simp add: abs_mult)
qed

lemma fl64_nonzero: "x \<noteq> 0 \<Longrightarrow> fl64 x \<noteq> 0"
proof -
  assume "x \<noteq> 0"
  then have "2 powi (log2_floor \<bar>x\<bar>) \<le> \<bar>fl64 x\<bar>"
    by (rule fl64_abs_ge)
  moreover have "(0::rat) < 2 powi (log2_floor \<bar>x\<bar>)"
    by simp
  ultimately show ?thesis by linarith
qed

lemma fl64_ge_one:
  assumes "1 \<le> \<bar>x\<bar>"
  shows "1 \<le> \<bar>fl64 x\<bar>"
proof -
  define l where "l = log2_floor \<bar>x\<bar>"
  have ax: "0 < \<bar>x\<bar>" and nz: "x \<noteq> 0"
    using assms by auto
  have up: "\<bar>x\<bar> < 2 powi (l + 1)"
    unfolding l_def using ax by (rule log2_floor_bounds(2))
  have "0 \<le> l"
  proof (rule ccontr)
    assume "\<not> 0 \<le> l"
    then have "l + 1 \<le> 0" by simp
    then have "(2::rat) powi (l + 1) \<le> 2 powi 0"
      by (intro power_int_increasing) simp_all
    with up assms show False by simp
  qed
  then have "(1::rat) \<le> 2 powi l"
    by (intro one_le_power_int) simp_all
  with fl64_abs_ge[OF nz] show ?thesis
    unfolding l_def by linarith
qed

lemma rint_nonzero: "1 \<le> \<bar>x\<bar> \<Longrightarrow> rint x \<noteq> 0"
proof (cases "0 \<le> x")
  case True
  assume "1 \<le> \<bar>x\<bar>"
  with True have "of_int 1 \<le> x" by simp
  then have "1 \<le> rint x" by (rule rint_ge)
  then show ?thesis by simp
next
  case False
  assume "1 \<le> \<bar>x\<bar>"
  with False have "x \<le> of_int (- 1)" by simp
  then have "rint x \<le> - 1" by (rule rint_le)
  then show ?thesis by simp
qed

lemma fl64_consts: "fl64 1 = 1" "fl64 100 = 100"
  by code_simp+

text \<open>
  The clamped quotient of a count that is not zero by the divisor one is not \<open>0.0\<close>.
\<close>

lemma round1_div_one_nonzero:
  assumes "p \<noteq> 0"
  shows "round1 (np_mul (np_truediv p 1) 100) \<noteq> Fin 0"
proof -
  define y1 where "y1 = fl64 (of_int p)"
  define y2 where "y2 = fl64 (y1 / 1)"
  define y3 where "y3 = fl64 (y2 * 100)"
  define z where "z = fl64 (y3 * 10)"
  have "1 \<le> \<bar>of_int p :: rat\<bar>"
    using assms by (simp flip: of_int_abs)
  then have 1: "1 \<le> \<bar>y1\<bar>"
    unfolding y1_def by (rule fl64_ge_one)
  then have "1 \<le> \<bar>y1 / 1\<bar>" by simp
  then have 2: "1 \<le> \<bar>y2\<bar>"
    unfolding y2_def by (rule fl64_ge_one)
  then have "1 \<le> \<bar>y2 * 100\<bar>"
    by (simp add: abs_mult)
  then have 3: "1 \<le> \<bar>y3\<bar>"
    unfolding y3_def by (rule fl64_ge_one)
  then have "1 \<le> \<bar>y3 * 10\<bar>"
    by (simp add: abs_mult)
  then have "1 \<le> \<bar>z\<bar>"
    unfolding z_def by (rule fl64_ge_one)
  then have "rint z \<noteq> 0"
    by (rule rint_nonzero)
  then have "(of_int (rint z) :: rat) / 10 \<noteq> 0"
    by simp
  then have n: "fl64 (of_int (rint z) / 10) \<noteq> 0"
    by (rule fl64_nonzero)
  have "round1 (np_mul (np_truediv p 1) 100) = Fin (fl64 (of_int (rint z) / 10))"
    unfolding z_def y3_def y2_def y1_def by (simp add: np_truediv_def fl64_consts)
  with n show ?thesis by simp
qed

lemma round1_div_finite:
  "b \<noteq> 0 \<Longrightarrow> \<exists>q. round1 (np_mul (np_truediv a b) 100) = Fin q"
  by (simp add: np_truediv_def)

lemma round1_zero: "round1 (Fin 0) = Fin 0"
  by (simp add: fl64_zero rint_def)

text \<open>
  The error of the rounding: one rounding to binary64 moves a value by at most the
  \<open>eps64\<close>-fold of its magnitude. So the rate the code computes, the rounding of a
  quotient of two counts times one hundred to one decimal, is within \<open>0.05\<close> of the exact
  quotient times one hundred, up to the errors of the six roundings on the way.
\<close>

lemma rint_error: "\<bar>of_int (rint x) - x\<bar> \<le> 1 / 2"
  using rint_bounds[of x] by linarith

lemma fl64_error: "\<bar>fl64 x - x\<bar> \<le> \<bar>x\<bar> / 2 ^ 53"
proof (cases "x = 0")
  case True
  then show ?thesis by (simp add: fl64_def)
next
  case False
  define l where "l = log2_floor \<bar>x\<bar>"
  define e where "e = l - 52"
  define y where "y = x / 2 powi e"
  define K :: rat where "K = 2 ^ 53"
  have K: "0 < K" unfolding K_def by simp
  have ax: "0 < \<bar>x\<bar>" using False by simp
  have lo: "2 powi l \<le> \<bar>x\<bar>"
    unfolding l_def using ax by (rule log2_floor_bounds(1))
  have pe: "(0::rat) < 2 powi e" by simp
  have f: "fl64 x = of_int (rint y) * 2 powi e"
    unfolding fl64_def y_def e_def l_def Let_def using False by simp
  have x: "x = y * 2 powi e"
    unfolding y_def by simp
  have "fl64 x - y * 2 powi e = (of_int (rint y) - y) * 2 powi e"
    unfolding f by (simp add: algebra_simps)
  then have "fl64 x - x = (of_int (rint y) - y) * 2 powi e"
    using x by simp
  then have "\<bar>fl64 x - x\<bar> = \<bar>of_int (rint y) - y\<bar> * 2 powi e"
    by (simp add: abs_mult)
  also have "\<dots> \<le> 1 / 2 * 2 powi e"
    using rint_error[of y] by (intro mult_right_mono) simp_all
  also have "\<dots> = 2 powi l / K"
  proof -
    have "(2::rat) powi l = 2 powi (e + 52)"
      unfolding e_def by simp
    also have "\<dots> = 2 powi e * 2 powi 52"
      by (rule power_int_add) simp
    finally have "(2::rat) powi l = 2 powi e * 2 ^ 52"
      by simp
    then show ?thesis unfolding K_def by simp
  qed
  also have "\<dots> \<le> \<bar>x\<bar> / K"
    using lo K by (simp add: divide_right_mono)
  finally show ?thesis unfolding K_def .
qed

lemma eps64_bounds: "0 < eps64" "16 * eps64 \<le> 1"
  unfolding eps64_def by simp_all

lemma fl64_rel_error: "\<bar>fl64 x - x\<bar> \<le> eps64 * \<bar>x\<bar>"
  using fl64_error[of x] unfolding eps64_def by simp

lemma fl64_step:
  assumes "\<bar>x - y\<bar> \<le> k * (eps64 * \<bar>y\<bar>)" and "0 \<le> k" and "k \<le> 16"
  shows "\<bar>fl64 x - y\<bar> \<le> (k + 2) * (eps64 * \<bar>y\<bar>)"
proof -
  define t where "t = eps64 * \<bar>y\<bar>"
  have t: "0 \<le> t"
    unfolding t_def using eps64_bounds(1) by simp
  have "k * eps64 \<le> 16 * eps64"
    using assms(3) eps64_bounds(1) by (intro mult_right_mono) simp_all
  then have ke: "k * eps64 \<le> 1"
    using eps64_bounds(2) by linarith
  have "k * t = (k * eps64) * \<bar>y\<bar>"
    unfolding t_def by simp
  also have "\<dots> \<le> 1 * \<bar>y\<bar>"
    using ke by (intro mult_right_mono) simp_all
  finally have kt: "k * t \<le> \<bar>y\<bar>"
    by simp
  have xy: "\<bar>x - y\<bar> \<le> k * t"
    using assms(1) unfolding t_def .
  then have "\<bar>x\<bar> \<le> 2 * \<bar>y\<bar>"
    using kt by linarith
  then have "eps64 * \<bar>x\<bar> \<le> eps64 * (2 * \<bar>y\<bar>)"
    using eps64_bounds(1) by (intro mult_left_mono) simp_all
  then have "eps64 * \<bar>x\<bar> \<le> 2 * t"
    unfolding t_def by simp
  with fl64_rel_error[of x] have "\<bar>fl64 x - x\<bar> \<le> 2 * t"
    by linarith
  with xy have "\<bar>fl64 x - y\<bar> \<le> k * t + 2 * t"
    by linarith
  then show ?thesis
    unfolding t_def by (simp add: algebra_simps)
qed

lemma div_step:
  assumes "b \<noteq> 0" and "\<bar>A - a\<bar> \<le> eps64 * \<bar>a\<bar>" and "\<bar>B - b\<bar> \<le> eps64 * \<bar>b\<bar>"
  shows "\<bar>A / B - a / b\<bar> \<le> 4 * (eps64 * \<bar>a / b\<bar>)"
proof -
  have e: "0 < eps64" "eps64 \<le> 1 / 2"
    using eps64_bounds by linarith+
  have b: "0 < \<bar>b\<bar>" using assms(1) by simp
  have "eps64 * \<bar>b\<bar> \<le> 1 / 2 * \<bar>b\<bar>"
    using e(2) by (intro mult_right_mono) simp_all
  with assms(3) have Bb: "\<bar>b\<bar> / 2 \<le> \<bar>B\<bar>"
    by linarith
  then have B: "0 < \<bar>B\<bar>" and Bn: "B \<noteq> 0"
    using b by auto
  have d: "A / B - a / b = ((A - a) * b - a * (B - b)) / (B * b)"
    using Bn assms(1) by (simp add: field_simps)
  have "\<bar>(A - a) * b - a * (B - b)\<bar> \<le> \<bar>(A - a) * b\<bar> + \<bar>a * (B - b)\<bar>"
    by (rule abs_triangle_ineq4)
  also have "\<dots> = \<bar>A - a\<bar> * \<bar>b\<bar> + \<bar>a\<bar> * \<bar>B - b\<bar>"
    by (simp add: abs_mult)
  also have "\<dots> \<le> (eps64 * \<bar>a\<bar>) * \<bar>b\<bar> + \<bar>a\<bar> * (eps64 * \<bar>b\<bar>)"
    using assms(2,3) by (intro add_mono mult_right_mono mult_left_mono) simp_all
  also have "\<dots> = 2 * eps64 * \<bar>a\<bar> * \<bar>b\<bar>"
    by simp
  finally have n: "\<bar>(A - a) * b - a * (B - b)\<bar> \<le> 2 * eps64 * \<bar>a\<bar> * \<bar>b\<bar>" .
  have "\<bar>b\<bar> / 2 * \<bar>b\<bar> \<le> \<bar>B\<bar> * \<bar>b\<bar>"
    using Bb by (intro mult_right_mono) simp_all
  then have m: "\<bar>b\<bar> * \<bar>b\<bar> / 2 \<le> \<bar>B * b\<bar>"
    by (simp add: abs_mult)
  have p: "0 < \<bar>b\<bar> * \<bar>b\<bar> / 2"
    using b by (intro divide_pos_pos mult_pos_pos) simp_all
  have "\<bar>A / B - a / b\<bar> = \<bar>(A - a) * b - a * (B - b)\<bar> / \<bar>B * b\<bar>"
    unfolding d by (rule abs_divide)
  also have "\<dots> \<le> (2 * eps64 * \<bar>a\<bar> * \<bar>b\<bar>) / (\<bar>b\<bar> * \<bar>b\<bar> / 2)"
    using n m p e(1) by (intro frac_le) simp_all
  also have "\<dots> = 4 * (eps64 * (\<bar>a\<bar> / \<bar>b\<bar>))"
    using b by (simp add: field_simps)
  finally show ?thesis
    by simp
qed

lemma scale_error:
  fixes x y c k t :: rat
  assumes "\<bar>x - y\<bar> \<le> k * (eps64 * \<bar>y\<bar>)" and "0 < c"
  shows "\<bar>x * c - y * c\<bar> \<le> k * (eps64 * \<bar>y * c\<bar>)"
proof -
  have "\<bar>x * c - y * c\<bar> = \<bar>(x - y) * c\<bar>"
    by (simp only: left_diff_distrib)
  also have "\<dots> = \<bar>x - y\<bar> * c"
    using assms(2) by (simp add: abs_mult)
  also have "\<dots> \<le> (k * (eps64 * \<bar>y\<bar>)) * c"
    using assms by (intro mult_right_mono) simp_all
  also have "\<dots> = k * (eps64 * (\<bar>y\<bar> * c))"
    by (simp only: mult.assoc)
  also have "\<bar>y\<bar> * c = \<bar>y * c\<bar>"
    using assms(2) by (simp add: abs_mult)
  finally show ?thesis .
qed

lemma abs_mult_ten: "\<bar>x * 10\<bar> = \<bar>x\<bar> * (10::rat)"
  by (simp add: abs_mult)

lemma round1_rate_error:
  assumes "b \<noteq> 0"
  shows "\<exists>q. round1 (np_mul (np_truediv a b) 100) = Fin q \<and>
           \<bar>q - of_int a / of_int b * 100\<bar>
             \<le> 1 / 20 + 16 * eps64 * (\<bar>of_int a / of_int b * 100\<bar> + 1)"
proof -
  define r :: rat where "r = of_int a / of_int b"
  define E :: rat where "E = r * 100"
  define t where "t = eps64 * \<bar>E\<bar>"
  define Q where "Q = fl64 (fl64 (of_int a) / fl64 (of_int b))"
  define P where "P = fl64 (Q * 100)"
  define S where "S = fl64 (P * 10)"
  define R :: rat where "R = of_int (rint S)"
  define F where "F = fl64 (R / 10)"
  have e: "0 < eps64" "16 * eps64 \<le> 1"
    by (rule eps64_bounds)+
  have t: "0 \<le> t"
    unfolding t_def using e(1) by simp
  have bn: "(of_int b :: rat) \<noteq> 0"
    using assms by simp
  have "\<bar>fl64 (of_int a) / fl64 (of_int b) - r\<bar> \<le> 4 * (eps64 * \<bar>r\<bar>)"
    unfolding r_def using bn fl64_rel_error fl64_rel_error by (rule div_step)
  then have "\<bar>Q - r\<bar> \<le> (4 + 2) * (eps64 * \<bar>r\<bar>)"
    unfolding Q_def by (rule fl64_step) simp_all
  then have "\<bar>Q - r\<bar> \<le> 6 * (eps64 * \<bar>r\<bar>)"
    by simp
  then have "\<bar>Q * 100 - r * 100\<bar> \<le> 6 * (eps64 * \<bar>r * 100\<bar>)"
    by (rule scale_error) simp
  then have "\<bar>Q * 100 - E\<bar> \<le> 6 * (eps64 * \<bar>E\<bar>)"
    unfolding E_def .
  then have "\<bar>P - E\<bar> \<le> (6 + 2) * (eps64 * \<bar>E\<bar>)"
    unfolding P_def by (rule fl64_step) simp_all
  then have "\<bar>P - E\<bar> \<le> 8 * (eps64 * \<bar>E\<bar>)"
    by simp
  then have "\<bar>P * 10 - E * 10\<bar> \<le> 8 * (eps64 * \<bar>E * 10\<bar>)"
    by (rule scale_error) simp
  then have "\<bar>S - E * 10\<bar> \<le> (8 + 2) * (eps64 * \<bar>E * 10\<bar>)"
    unfolding S_def by (rule fl64_step) simp_all
  moreover have "eps64 * \<bar>E * 10\<bar> = 10 * t"
    unfolding t_def by (simp add: abs_mult)
  ultimately have s: "\<bar>S - E * 10\<bar> \<le> 100 * t"
    by simp
  have "\<bar>R - S\<bar> \<le> 1 / 2"
    unfolding R_def by (rule rint_error)
  with s have rs: "\<bar>R - E * 10\<bar> \<le> 1 / 2 + 100 * t"
    by linarith
  have "R - E * 10 = (R / 10 - E) * 10"
    by simp
  then have "\<bar>R - E * 10\<bar> = \<bar>(R / 10 - E) * 10\<bar>"
    by (rule arg_cong)
  also have "\<dots> = \<bar>R / 10 - E\<bar> * 10"
    by (rule abs_mult_ten)
  finally have "\<bar>R - E * 10\<bar> = \<bar>R / 10 - E\<bar> * 10" .
  with rs have r1: "\<bar>R / 10 - E\<bar> \<le> 1 / 20 + 10 * t"
    by linarith
  have "10 * eps64 \<le> 1"
    using e by linarith
  then have "(10 * eps64) * \<bar>E\<bar> \<le> 1 * \<bar>E\<bar>"
    by (intro mult_right_mono) simp_all
  then have "10 * t \<le> \<bar>E\<bar>"
    unfolding t_def by (simp only: mult.assoc mult_1)
  with r1 have "\<bar>R / 10\<bar> \<le> 2 * \<bar>E\<bar> + 1 / 20"
    by linarith
  then have "eps64 * \<bar>R / 10\<bar> \<le> eps64 * (2 * \<bar>E\<bar> + 1 / 20)"
    using e(1) by (intro mult_left_mono) simp_all
  also have "\<dots> = 2 * t + eps64 / 20"
    unfolding t_def by (simp add: distrib_left)
  finally have "eps64 * \<bar>R / 10\<bar> \<le> 2 * t + eps64 / 20" .
  with fl64_rel_error[of "R / 10"] have "\<bar>F - R / 10\<bar> \<le> 2 * t + eps64 / 20"
    unfolding F_def by linarith
  with r1 have "\<bar>F - E\<bar> \<le> 1 / 20 + 12 * t + eps64 / 20"
    by linarith
  also have "\<dots> \<le> 1 / 20 + (16 * t + 16 * eps64)"
    using t e(1) by linarith
  also have "16 * t + 16 * eps64 = 16 * eps64 * (\<bar>E\<bar> + 1)"
    unfolding t_def by (simp only: distrib_left mult.assoc mult_1_right)
  finally have b: "\<bar>F - E\<bar> \<le> 1 / 20 + 16 * eps64 * (\<bar>E\<bar> + 1)" .
  have "np_truediv a b = Fin (fl64 (fl64 (of_int a) / fl64 (of_int b)))"
    unfolding np_truediv_def using assms by simp
  then have "round1 (np_mul (np_truediv a b) 100) = Fin F"
    unfolding F_def R_def S_def P_def Q_def
    by (simp only: np_mul.simps round1.simps of_int_numeral fl64_consts)
  with b show ?thesis
    unfolding E_def r_def by blast
qed

section \<open>Facts about the Aggregator\<close>

lemma texts_Some: "texts cs = Some ss \<Longrightarrow> cs = map Str ss"
  by (induction cs arbitrary: ss rule: texts.induct) auto

lemma numbers_Some: "numbers cs = Some ns \<Longrightarrow> cs = map Num ns"
  by (induction cs arbitrary: ns rule: numbers.induct) auto

lemma texts_total: "\<forall>c\<in>set cs. \<exists>s. c = Str s \<Longrightarrow> \<exists>ss. texts cs = Some ss"
  by (induction cs rule: texts.induct) auto

lemma py_sorted_Inr:
  assumes "py_sorted cs = Inr rs"
  shows "set rs = set cs" and "distinct cs \<Longrightarrow> distinct rs"
proof -
  consider ss where "texts cs = Some ss" "rs = map Str (sort ss)"
    | ns where "numbers cs = Some ns" "rs = map Num (sort ns)"
    using assms by (auto simp: py_sorted_def split: option.splits)
  note c = this
  show "set rs = set cs"
    using c by cases (auto dest!: texts_Some numbers_Some)
  show "distinct rs" if "distinct cs"
    using c that by cases (auto dest!: texts_Some numbers_Some simp: distinct_map inj_on_def)
qed

lemma set_regions:
  "set (regions df) =
     (region ` set df - {NaN}) \<union> (if NaN \<in> region ` set df then {Str ''Unknown''} else {})"
  unfolding regions_def set_unique set_fillna by simp

lemma NaN_notin_regions: "NaN \<notin> set (regions df)"
  unfolding set_regions by simp

lemma distinct_regions: "distinct (regions df)"
  by (simp add: regions_def distinct_unique)

lemma compute_metrics_Inr:
  assumes "compute_metrics df = Inr ms"
  obtains rs where "py_sorted (regions df) = Inr rs"
    and "ms = map (\<lambda>r. region_row r (region_sub df r)) rs @ [total_row df]"
  using assms by (auto simp: compute_metrics_def split: sum.splits)

text \<open>The aggregation ends in a table whenever every region value is a text.\<close>

lemma compute_metrics_total:
  assumes "\<forall>x\<in>set df. region x = NaN \<or> (\<exists>s. region x = Str s)"
  shows "\<exists>ms. compute_metrics df = Inr ms"
proof -
  have "\<forall>c\<in>set (regions df). \<exists>s. c = Str s"
  proof
    fix c
    assume "c \<in> set (regions df)"
    then have "c \<in> region ` set df - {NaN} \<or> c = Str ''Unknown''"
      unfolding set_regions by (simp split: if_splits)
    then show "\<exists>s. c = Str s"
      using assms by blast
  qed
  then obtain ss where "texts (regions df) = Some ss"
    using texts_total by blast
  then show ?thesis
    by (simp add: compute_metrics_def py_sorted_def)
qed

lemma region_row_fields:
  "Region (region_row r sub) = r"
  "Unique_Students (region_row r sub) = nunique (map student_id sub)"
  "Unique_Ignators (region_row r sub) = nunique (map ignator_id sub)"
  "Session_Count (region_row r sub) =
     nunique (map session_id (filter (\<lambda>x. \<not> is_excluded_program x) sub))"
  "DA_Pre (region_row r sub) = bool_sum (map has_pre sub)"
  "DA_Post (region_row r sub) = bool_sum (map has_post sub)"
  "DA_Gap (region_row r sub) = bool_sum (map has_pre sub) - bool_sum (map has_post sub)"
  unfolding region_row_def Let_def by (rule metrics.select_convs)+

lemma region_row_rates:
  "Completion_Rate (region_row r sub) =
     round1
       (if nunique (map session_id (filter (\<lambda>x. \<not> is_excluded_program x) sub)) > 0
        then np_mul
               (np_truediv (bool_sum (map has_post sub))
                  (nunique (map session_id (filter (\<lambda>x. \<not> is_excluded_program x) sub))))
               100
        else Fin 0)"
  "Wastage (region_row r sub) =
     round1
       (if bool_sum (map has_pre sub) > 0
        then np_mul
               (np_truediv (bool_sum (map has_pre sub) - bool_sum (map has_post sub))
                  (bool_sum (map has_pre sub)))
               100
        else Fin 0)"
  unfolding region_row_def Let_def by (rule metrics.select_convs)+


lemma total_row_fields:
  "Region (total_row df) = Str ''TOTAL''"
  "Unique_Students (total_row df) = nunique (map student_id df)"
  "Unique_Ignators (total_row df) = nunique (map ignator_id df)"
  "Session_Count (total_row df) =
     nunique (map session_id (filter (\<lambda>x. \<not> is_excluded_program x) df))"
  "DA_Pre (total_row df) = bool_sum (map has_pre df)"
  "DA_Post (total_row df) = bool_sum (map has_post df)"
  "DA_Gap (total_row df) = bool_sum (map has_pre df) - bool_sum (map has_post df)"
  "No_DA_Count (total_row df) = 0"
  "No_DA_List (total_row df) = []"
  unfolding total_row_def by (rule metrics.select_convs)+

lemma total_row_rates:
  "Completion_Rate (total_row df) =
     round1
       (np_mul
          (np_truediv (bool_sum (map has_post df))
             (max 1 (nunique (map session_id (filter (\<lambda>x. \<not> is_excluded_program x) df)))))
          100)"
  "Wastage (total_row df) =
     round1
       (np_mul
          (np_truediv (bool_sum (map has_pre df) - bool_sum (map has_post df))
             (max 1 (bool_sum (map has_pre df))))
          100)"
  unfolding total_row_def by (rule metrics.select_convs)+

text \<open>
  The shape of the table: the per-region rows, one for each region of \<open>regions\<close>, and
  the \<^verbatim>\<open>TOTAL\<close> row last.
\<close>

lemma compute_metrics_rows:
  assumes "compute_metrics df = Inr ms"
  shows "last ms = total_row df"
    and "m \<in> set (butlast ms) \<Longrightarrow>
         m = region_row (Region m) (region_sub df (Region m)) \<and> Region m \<in> set (regions df)"
    and "\<exists>rs. distinct rs \<and> set rs = set (regions df) \<and>
           butlast ms = map (\<lambda>r. region_row r (region_sub df r)) rs"
proof -
  from assms obtain rs where rs: "py_sorted (regions df) = Inr rs"
    "ms = map (\<lambda>r. region_row r (region_sub df r)) rs @ [total_row df]"
    by (rule compute_metrics_Inr)
  show "last ms = total_row df"
    unfolding rs(2) by (rule last_snoc)
  have b: "butlast ms = map (\<lambda>r. region_row r (region_sub df r)) rs"
    unfolding rs(2) by (rule butlast_snoc)
  have s: "set rs = set (regions df)"
    using rs(1) by (rule py_sorted_Inr(1))
  have d: "distinct rs"
    using rs(1) distinct_regions by (rule py_sorted_Inr(2))
  show "m = region_row (Region m) (region_sub df (Region m)) \<and> Region m \<in> set (regions df)"
    if "m \<in> set (butlast ms)"
  proof -
    from that obtain r where r: "r \<in> set rs" "m = region_row r (region_sub df r)"
      unfolding b by (auto simp only: set_map image_iff)
    have "Region m = r" unfolding r(2) by (rule region_row_fields(1))
    with r s show ?thesis by simp
  qed
  show "\<exists>rs. distinct rs \<and> set rs = set (regions df) \<and>
           butlast ms = map (\<lambda>r. region_row r (region_sub df r)) rs"
    using b s d by blast
qed


lemma region_sub_filter:
  "r \<noteq> NaN \<Longrightarrow> region_sub df r = filter (\<lambda>x. region x = r) df"
  unfolding region_sub_def cell_eq_def by (rule filter_cong) auto


lemma nunique_nonneg: "0 \<le> nunique cs"
  by (simp add: nunique_def)

lemma bool_sum_nonneg: "0 \<le> bool_sum bs"
  by (simp add: bool_sum_def)

lemma region_row_completion:
  "Completion_Rate (region_row r sub) =
     (if Session_Count (region_row r sub) = 0 then Fin 0
      else round1 (np_mul (np_truediv (DA_Post (region_row r sub)) (Session_Count (region_row r sub))) 100))"
  unfolding region_row_rates region_row_fields
  using nunique_nonneg[of "map session_id (filter (\<lambda>x. \<not> is_excluded_program x) sub)"]
  by (simp add: round1_zero del: round1.simps)

lemma region_row_wastage:
  "Wastage (region_row r sub) =
     (if DA_Pre (region_row r sub) = 0 then Fin 0
      else round1 (np_mul (np_truediv (DA_Pre (region_row r sub) - DA_Post (region_row r sub))
                     (DA_Pre (region_row r sub))) 100))"
  unfolding region_row_rates region_row_fields
  using bool_sum_nonneg[of "map has_pre sub"]
  by (simp add: round1_zero del: round1.simps)




lemma flag_record_fields:
  "region (flag_record pd x) = region x"
  "ignator_id (flag_record pd x) = ignator_id x"
  "student_id (flag_record pd x) = student_id x"
  "session_id (flag_record pd x) = session_id x"
  "program (flag_record pd x) = astype_str pd (program x)"
  "is_excluded_program (flag_record pd x) = isin (astype_str pd (program x)) EXCLUDED_PROGRAMS"
  "has_pre (flag_record pd x) = notna (da_pre_score x)"
  "has_post (flag_record pd x) = notna (da_post_score x)"
  by (simp_all add: flag_record_def Let_def)
section \<open>Counts over the regions and over the whole table\<close>

lemma length_filter_disj:
  "(\<And>x. \<not> (A x \<and> B x)) \<Longrightarrow>
   length (filter (\<lambda>x. A x \<or> B x) xs) = length (filter A xs) + length (filter B xs)"
  by (induction xs) auto

lemma bool_sum_region_sub:
  assumes "r \<noteq> NaN"
  shows "bool_sum (map P (region_sub df r)) = int (length (filter (\<lambda>x. region x = r \<and> P x) df))"
  unfolding bool_sum_map region_sub_filter[OF assms] filter_filter
  by (simp add: conj_commute)

lemma sum_list_region_counts:
  assumes "distinct rs" and "NaN \<notin> set rs"
  shows "sum_list (map (\<lambda>r. bool_sum (map P (region_sub df r))) rs) =
           int (length (filter (\<lambda>x. region x \<in> set rs \<and> P x) df))"
  using assms
proof (induction rs)
  case Nil
  then show ?case by simp
next
  case (Cons a rs)
  have a: "a \<noteq> NaN" and n: "a \<notin> set rs"
    using Cons.prems by auto
  have ih: "sum_list (map (\<lambda>r. bool_sum (map P (region_sub df r))) rs) =
           int (length (filter (\<lambda>x. region x \<in> set rs \<and> P x) df))"
    using Cons.IH Cons.prems by simp
  have "filter (\<lambda>x. region x \<in> set (a # rs) \<and> P x) df =
        filter (\<lambda>x. (region x = a \<and> P x) \<or> (region x \<in> set rs \<and> P x)) df"
    by (rule filter_cong) auto
  moreover have "length (filter (\<lambda>x. (region x = a \<and> P x) \<or> (region x \<in> set rs \<and> P x)) df) =
        length (filter (\<lambda>x. region x = a \<and> P x) df) +
        length (filter (\<lambda>x. region x \<in> set rs \<and> P x) df)"
    using n by (intro length_filter_disj) auto
  ultimately show ?case
    using ih bool_sum_region_sub[OF a, of P df] by simp
qed

lemma bool_sum_split_null:
  assumes "set rs = set (regions df)"
  shows "bool_sum (map P df) =
           int (length (filter (\<lambda>x. region x \<in> set rs \<and> P x) df)) +
           int (length (filter (\<lambda>x. region x = NaN \<and> P x) df))"
proof -
  have "filter P df =
        filter (\<lambda>x. (region x \<in> set rs \<and> P x) \<or> (region x = NaN \<and> P x)) df"
  proof (rule filter_cong)
    fix x
    assume "x \<in> set df"
    then have "region x \<noteq> NaN \<longrightarrow> region x \<in> set rs"
      unfolding assms set_regions by simp
    then show "P x = ((region x \<in> set rs \<and> P x) \<or> (region x = NaN \<and> P x))"
      by blast
  qed (rule refl)
  moreover have "length (filter (\<lambda>x. (region x \<in> set rs \<and> P x) \<or> (region x = NaN \<and> P x)) df) =
        length (filter (\<lambda>x. region x \<in> set rs \<and> P x) df) +
        length (filter (\<lambda>x. region x = NaN \<and> P x) df)"
    using NaN_notin_regions[of df] assms by (intro length_filter_disj) auto
  ultimately show ?thesis
    unfolding bool_sum_map by simp
qed

text \<open>
  A count of the \<^verbatim>\<open>TOTAL\<close> row is the sum of the counts of the regions plus the count
  over the records without a region.
\<close>

lemma total_count_split:
  assumes "compute_metrics df = Inr ms"
  shows "DA_Pre (last ms) =
           sum_list (map DA_Pre (butlast ms)) +
           int (length (filter (\<lambda>y. region y = NaN \<and> has_pre y) df))"
    and "DA_Post (last ms) =
           sum_list (map DA_Post (butlast ms)) +
           int (length (filter (\<lambda>y. region y = NaN \<and> has_post y) df))"
proof -
  from compute_metrics_rows(3)[OF assms]
  obtain rs where rs: "distinct rs" "set rs = set (regions df)"
    "butlast ms = map (\<lambda>r. region_row r (region_sub df r)) rs"
    by blast
  have nn: "NaN \<notin> set rs"
    unfolding rs(2) by (rule NaN_notin_regions)
  have t: "last ms = total_row df"
    using assms by (rule compute_metrics_rows(1))
  have p: "map DA_Pre (butlast ms) = map (\<lambda>r. bool_sum (map has_pre (region_sub df r))) rs"
    unfolding rs(3) map_map comp_def region_row_fields by (rule refl)
  have q: "map DA_Post (butlast ms) = map (\<lambda>r. bool_sum (map has_post (region_sub df r))) rs"
    unfolding rs(3) map_map comp_def region_row_fields by (rule refl)
  show "DA_Pre (last ms) =
           sum_list (map DA_Pre (butlast ms)) +
           int (length (filter (\<lambda>y. region y = NaN \<and> has_pre y) df))"
    unfolding t total_row_fields p sum_list_region_counts[OF rs(1) nn]
    by (rule bool_sum_split_null[OF rs(2)])
  show "DA_Post (last ms) =
           sum_list (map DA_Post (butlast ms)) +
           int (length (filter (\<lambda>y. region y = NaN \<and> has_post y) df))"
    unfolding t total_row_fields q sum_list_region_counts[OF rs(1) nn]
    by (rule bool_sum_split_null[OF rs(2)])
qed

lemma region_row_empty:
  "region_row r [] =
     \<lparr> Region = r, Unique_Students = 0, Unique_Ignators = 0, Session_Count = 0,
       DA_Pre = 0, DA_Post = 0, Completion_Rate = Fin 0, DA_Gap = 0, Wastage = Fin 0,
       No_DA_Count = 0, No_DA_List = [] \<rparr>"
  by (simp add: region_row_def nunique_def unique_def dropna_def bool_sum_def round1_zero
      del: round1.simps)

section \<open>Claims about the Normalizer\<close>

text \<open>
  Claim C1, as the code has it. Whenever the region column of a unit is absent or null
  throughout, every record of the unit gets the fallback region, the name of the unit's
  file without directory and extension, and so a region that is not null. The records
  with a null region in the loaded table are exactly the records with a null region
  value of the units that hold at least one region value: such a record is loaded as it
  is, and it is in the table the Rule Engine hands to the Aggregator with its region
  still null.
\<close>

theorem C1_region_fallback:
  "(find_col (columns sh) [''Region'', ''region''] = None \<or>
    (\<forall>x\<in>set (normalize_df sh). region x = NaN)
    \<longrightarrow> (\<forall>y\<in>set (load_sheet f sh). region y = Str (splitext_root (basename f)) \<and> region y \<noteq> NaN)) \<and>
   (y \<in> set (load_all_data files) \<and> region y = NaN
    \<longrightarrow> (\<exists>w\<in>set files. \<exists>xls. snd w = Some xls \<and>
          (\<exists>(nm, sh)\<in>set xls. y \<in> set (normalize_df sh) \<and>
             (\<exists>z\<in>set (normalize_df sh). region z \<noteq> NaN)))) \<and>
   (w \<in> set files \<and> snd w = Some xls \<and> (nm, u) \<in> set xls \<and>
    v \<in> set (normalize_df u) \<and> region v = NaN \<and> (\<exists>z\<in>set (normalize_df u). region z \<noteq> NaN)
    \<longrightarrow> v \<in> set (load_sheet (fst w) u) \<and> v \<in> set (load_all_data files) \<and>
        flag_record pd v \<in> set (apply_business_rules pd (load_all_data files)) \<and>
        region (flag_record pd v) = NaN)"
proof (intro conjI impI)
  assume a: "find_col (columns sh) [''Region'', ''region''] = None \<or>
    (\<forall>x\<in>set (normalize_df sh). region x = NaN)"
  have "\<forall>x\<in>set (normalize_df sh). region x = NaN"
    using a normalize_df_region_absent by blast
  then show "\<forall>y\<in>set (load_sheet f sh). region y = Str (splitext_root (basename f)) \<and> region y \<noteq> NaN"
    by (auto simp: load_sheet_def region_fallback_all_null)
next
  assume a: "y \<in> set (load_all_data files) \<and> region y = NaN"
  then obtain w fr where w: "w \<in> set files" "fr \<in> set (file_frames w)" "y \<in> set fr"
    by (auto simp: set_load_all_data)
  then obtain xls nm sh where s: "snd w = Some xls" "(nm, sh) \<in> set xls" "fr = load_sheet (fst w) sh"
    using file_frames_cases by blast
  have nn: "\<exists>z\<in>set (normalize_df sh). region z \<noteq> NaN"
  proof (rule ccontr)
    assume "\<not> (\<exists>z\<in>set (normalize_df sh). region z \<noteq> NaN)"
    then have "\<forall>x\<in>set (normalize_df sh). region x = NaN" by blast
    then have "\<forall>y\<in>set (load_sheet (fst w) sh). region y \<noteq> NaN"
      by (auto simp: load_sheet_def region_fallback_all_null)
    with w(3) s(3) a show False by blast
  qed
  then have "load_sheet (fst w) sh = normalize_df sh"
    by (simp add: load_sheet_def region_fallback_some_value)
  with w(3) s(3) have "y \<in> set (normalize_df sh)" by simp
  with nn s w(1) show "\<exists>w\<in>set files. \<exists>xls. snd w = Some xls \<and>
          (\<exists>(nm, sh)\<in>set xls. y \<in> set (normalize_df sh) \<and>
             (\<exists>z\<in>set (normalize_df sh). region z \<noteq> NaN))"
    by blast
next
  assume a: "w \<in> set files \<and> snd w = Some xls \<and> (nm, u) \<in> set xls \<and>
    v \<in> set (normalize_df u) \<and> region v = NaN \<and> (\<exists>z\<in>set (normalize_df u). region z \<noteq> NaN)"
  then have "load_sheet (fst w) u = normalize_df u"
    by (simp add: load_sheet_def region_fallback_some_value)
  with a have 1: "v \<in> set (load_sheet (fst w) u)"
    by simp
  have "(case (nm, u) of (sheet_name, sh) \<Rightarrow> load_sheet (fst w) sh) \<in> set (file_frames w)"
    unfolding file_frames_def using a by (simp only: option.case set_map) (rule imageI, simp)
  then have "load_sheet (fst w) u \<in> set (file_frames w)"
    by simp
  with a 1 have 2: "v \<in> set (load_all_data files)"
    unfolding set_load_all_data by blast
  then have 3: "flag_record pd v \<in> set (apply_business_rules pd (load_all_data files))"
    unfolding apply_business_rules_def by simp
  have 4: "region (flag_record pd v) = NaN"
    unfolding flag_record_fields using a by simp
  show "v \<in> set (load_sheet (fst w) u)"
    by (rule 1)
  show "v \<in> set (load_all_data files)"
    by (rule 2)
  show "flag_record pd v \<in> set (apply_business_rules pd (load_all_data files))"
    by (rule 3)
  show "region (flag_record pd v) = NaN"
    by (rule 4)
qed

theorem C1_region_fallback_witness:
  "find_col (columns ex_sheet_null) [''Region'', ''region''] = None \<and>
   list_all (\<lambda>y. region y = Str ''north_2024'' \<and> region y \<noteq> NaN)
     (load_sheet ''data/north_2024.xlsx'' ex_sheet_null) \<and>
   length (load_sheet ''data/north_2024.xlsx'' ex_sheet_null) = 2 \<and>
   last (load_all_data ex_files) \<in> set (load_all_data ex_files) \<and>
   region (last (load_all_data ex_files)) = NaN \<and>
   list_ex (\<lambda>z. region z \<noteq> NaN) (normalize_df ex_sheet_mixed) \<and>
   hd ex_files \<in> set ex_files \<and> snd (hd ex_files) = Some [(''Sheet1'', ex_sheet_mixed)] \<and>
   last (normalize_df ex_sheet_mixed) \<in> set (normalize_df ex_sheet_mixed) \<and>
   region (last (normalize_df ex_sheet_mixed)) = NaN \<and>
   last (normalize_df ex_sheet_mixed) \<in> set (load_all_data ex_files) \<and>
   flag_record ex_pandas (last (normalize_df ex_sheet_mixed))
     \<in> set (apply_business_rules ex_pandas (load_all_data ex_files)) \<and>
   region (flag_record ex_pandas (last (normalize_df ex_sheet_mixed))) = NaN \<and>
   map region (apply_business_rules ex_pandas (load_all_data ex_files)) = [Str ''North'', NaN]"
proof -
  have h: "find_col (columns ex_sheet_null) [''Region'', ''region''] = None"
    by code_simp
  have f: "splitext_root (basename ''data/north_2024.xlsx'') = ''north_2024''"
    by code_simp
  have "\<forall>y\<in>set (load_sheet ''data/north_2024.xlsx'' ex_sheet_null).
          region y = Str (splitext_root (basename ''data/north_2024.xlsx'')) \<and> region y \<noteq> NaN"
    using C1_region_fallback[where sh = ex_sheet_null and f = "''data/north_2024.xlsx''"] h
    by blast
  then have c: "list_all (\<lambda>y. region y = Str ''north_2024'' \<and> region y \<noteq> NaN)
     (load_sheet ''data/north_2024.xlsx'' ex_sheet_null)"
    unfolding f list_all_iff .
  have l: "length (load_sheet ''data/north_2024.xlsx'' ex_sheet_null) = 2"
    by code_simp
  have "length (load_all_data ex_files) = 2"
    by code_simp
  then have "load_all_data ex_files \<noteq> []"
    by (metis length_0_conv zero_neq_numeral)
  then have m: "last (load_all_data ex_files) \<in> set (load_all_data ex_files)"
    by (rule last_in_set)
  have n: "region (last (load_all_data ex_files)) = NaN"
    by code_simp
  have "\<exists>w\<in>set ex_files. \<exists>xls. snd w = Some xls \<and>
          (\<exists>(nm, sh)\<in>set xls. last (load_all_data ex_files) \<in> set (normalize_df sh) \<and>
             (\<exists>z\<in>set (normalize_df sh). region z \<noteq> NaN))"
    using C1_region_fallback[where y = "last (load_all_data ex_files)" and files = ex_files] m n
    by blast
  then have e': "\<exists>z\<in>set (normalize_df ex_sheet_mixed). region z \<noteq> NaN"
    unfolding ex_files_def by auto
  then have e: "list_ex (\<lambda>z. region z \<noteq> NaN) (normalize_df ex_sheet_mixed)"
    unfolding list_ex_iff .
  have w: "hd ex_files \<in> set ex_files"
    and x: "snd (hd ex_files) = Some [(''Sheet1'', ex_sheet_mixed)]"
    by (simp_all add: ex_files_def)
  have s: "(''Sheet1'', ex_sheet_mixed) \<in> set [(''Sheet1'', ex_sheet_mixed)]"
    by simp
  have "length (normalize_df ex_sheet_mixed) = 2"
    by code_simp
  then have "normalize_df ex_sheet_mixed \<noteq> []"
    by (metis length_0_conv zero_neq_numeral)
  then have v: "last (normalize_df ex_sheet_mixed) \<in> set (normalize_df ex_sheet_mixed)"
    by (rule last_in_set)
  have r: "region (last (normalize_df ex_sheet_mixed)) = NaN"
    by code_simp
  have g: "last (normalize_df ex_sheet_mixed) \<in> set (load_all_data ex_files) \<and>
        flag_record ex_pandas (last (normalize_df ex_sheet_mixed))
          \<in> set (apply_business_rules ex_pandas (load_all_data ex_files)) \<and>
        region (flag_record ex_pandas (last (normalize_df ex_sheet_mixed))) = NaN"
    using C1_region_fallback[where w = "hd ex_files" and files = ex_files
        and xls = "[(''Sheet1'', ex_sheet_mixed)]" and nm = "''Sheet1''" and u = ex_sheet_mixed
        and v = "last (normalize_df ex_sheet_mixed)" and pd = ex_pandas] w x s v r e'
    by blast
  have t: "map region (apply_business_rules ex_pandas (load_all_data ex_files)) = [Str ''North'', NaN]"
    by code_simp
  from h c l m n e w x v r g t show ?thesis by (intro conjI) blast+
qed

text \<open>
  The claim as stated fails: a unit with the regions \<^verbatim>\<open>North\<close> and null is loaded with
  the null region in place.
\<close>

theorem C1_counterexample:
  "map region (load_all_data ex_files) = [Str ''North'', NaN]"
  by code_simp

text \<open>
  Claim C8. The fallback is decided per unit: when every region value of the unit is
  null, the unit is loaded with the region of every record replaced by the one fallback
  value made from the file name; when the unit holds a region value, it is loaded as
  normalised, with no region replaced.
\<close>

theorem C8_unit_level_fallback:
  "((\<forall>x\<in>set (normalize_df sh). region x = NaN) \<longrightarrow>
      load_sheet f sh =
        map (\<lambda>x. x\<lparr>region := Str (splitext_root (basename f))\<rparr>) (normalize_df sh) \<and>
      (\<forall>y\<in>set (load_sheet f sh). region y = Str (splitext_root (basename f)))) \<and>
   ((\<exists>x\<in>set (normalize_df sh). region x \<noteq> NaN) \<longrightarrow> load_sheet f sh = normalize_df sh)"
  by (auto simp: load_sheet_def region_fallback_all_null region_fallback_some_value)

theorem C8_unit_level_fallback_witness:
  "list_all (\<lambda>x. region x = NaN) (normalize_df ex_sheet_null) \<and>
   load_sheet ''data/north_2024.xlsx'' ex_sheet_null =
     map (\<lambda>x. x\<lparr>region := Str ''north_2024''\<rparr>) (normalize_df ex_sheet_null) \<and>
   map region (load_sheet ''data/north_2024.xlsx'' ex_sheet_null) =
     [Str ''north_2024'', Str ''north_2024''] \<and>
   list_ex (\<lambda>x. region x \<noteq> NaN) (normalize_df ex_sheet_mixed) \<and>
   load_sheet ''data/north_2024.xlsx'' ex_sheet_mixed = normalize_df ex_sheet_mixed \<and>
   map region (load_sheet ''data/north_2024.xlsx'' ex_sheet_mixed) = [Str ''North'', NaN]"
proof -
  have h1: "list_all (\<lambda>x. region x = NaN) (normalize_df ex_sheet_null)"
    by code_simp
  then have h1': "\<forall>x\<in>set (normalize_df ex_sheet_null). region x = NaN"
    unfolding list_all_iff .
  have f: "splitext_root (basename ''data/north_2024.xlsx'') = ''north_2024''"
    by code_simp
  have "load_sheet ''data/north_2024.xlsx'' ex_sheet_null =
     map (\<lambda>x. x\<lparr>region := Str (splitext_root (basename ''data/north_2024.xlsx''))\<rparr>)
       (normalize_df ex_sheet_null)"
    using C8_unit_level_fallback[where sh = ex_sheet_null and f = "''data/north_2024.xlsx''"] h1'
    by blast
  then have c1: "load_sheet ''data/north_2024.xlsx'' ex_sheet_null =
     map (\<lambda>x. x\<lparr>region := Str ''north_2024''\<rparr>) (normalize_df ex_sheet_null)"
    unfolding f .
  have r1: "map region (load_sheet ''data/north_2024.xlsx'' ex_sheet_null) =
     [Str ''north_2024'', Str ''north_2024'']"
    by code_simp
  have h2: "list_ex (\<lambda>x. region x \<noteq> NaN) (normalize_df ex_sheet_mixed)"
    by code_simp
  then have h2': "\<exists>x\<in>set (normalize_df ex_sheet_mixed). region x \<noteq> NaN"
    unfolding list_ex_iff .
  have c2: "load_sheet ''data/north_2024.xlsx'' ex_sheet_mixed = normalize_df ex_sheet_mixed"
    using C8_unit_level_fallback[where sh = ex_sheet_mixed and f = "''data/north_2024.xlsx''"] h2'
    by blast
  have r2: "map region (load_sheet ''data/north_2024.xlsx'' ex_sheet_mixed) = [Str ''North'', NaN]"
    by code_simp
  from h1 c1 r1 h2 c2 r2 show ?thesis by (intro conjI)
qed

section \<open>Claims about the Rule Engine\<close>

text \<open>
  Claim C3. \<open>valid_prepost_pair\<close> holds exactly when both scores are present and both
  dates are present and fall on the same day. Two records with the same scores whose
  dates differ in the time of the day only get the same flag. A record whose pre date is
  missing (or does not parse) never gets the flag, whatever the post side holds.
\<close>

theorem C3_valid_prepost_pair:
  "(valid_prepost_pair (flag_record pd x) \<longleftrightarrow>
      has_pre (flag_record pd x) \<and> has_post (flag_record pd x) \<and>
      (\<exists>a b. da_pre_date (flag_record pd x) = Some a \<and>
             da_post_date (flag_record pd x) = Some b \<and>
             a div 86400000000000 = b div 86400000000000)) \<and>
   (da_pre_score x' = da_pre_score x \<and> da_post_score x' = da_post_score x \<and>
    dt_date (to_datetime pd' (da_pre_date x')) = dt_date (to_datetime pd (da_pre_date x)) \<and>
    dt_date (to_datetime pd' (da_post_date x')) = dt_date (to_datetime pd (da_post_date x))
    \<longrightarrow> valid_prepost_pair (flag_record pd' x') = valid_prepost_pair (flag_record pd x)) \<and>
   (da_pre_date x = NaN \<or> da_pre_date (flag_record pd x) = None
    \<longrightarrow> \<not> valid_prepost_pair (flag_record pd x))"
proof (intro conjI impI)
  show "valid_prepost_pair (flag_record pd x) \<longleftrightarrow>
      has_pre (flag_record pd x) \<and> has_post (flag_record pd x) \<and>
      (\<exists>a b. da_pre_date (flag_record pd x) = Some a \<and>
             da_post_date (flag_record pd x) = Some b \<and>
             a div 86400000000000 = b div 86400000000000)"
    by (auto simp: flag_record_def Let_def dt_date_def date_eq_def split: option.splits)
next
  assume "da_pre_score x' = da_pre_score x \<and> da_post_score x' = da_post_score x \<and>
    dt_date (to_datetime pd' (da_pre_date x')) = dt_date (to_datetime pd (da_pre_date x)) \<and>
    dt_date (to_datetime pd' (da_post_date x')) = dt_date (to_datetime pd (da_post_date x))"
  then show "valid_prepost_pair (flag_record pd' x') = valid_prepost_pair (flag_record pd x)"
    by (auto simp: flag_record_def Let_def dt_date_def date_eq_def split: option.splits)
next
  assume "da_pre_date x = NaN \<or> da_pre_date (flag_record pd x) = None"
  then show "\<not> valid_prepost_pair (flag_record pd x)"
    by (auto simp: flag_record_def Let_def to_datetime_def isnull_def)
qed

theorem C3_valid_prepost_pair_witness:
  "valid_prepost_pair (flag_record ex_pandas ex_a) \<and>
   da_pre_date ex_a' \<noteq> da_pre_date ex_a \<and> da_post_date ex_a' \<noteq> da_post_date ex_a \<and>
   da_pre_score ex_a' = da_pre_score ex_a \<and> da_post_score ex_a' = da_post_score ex_a \<and>
   dt_date (to_datetime ex_pandas (da_pre_date ex_a')) = dt_date (to_datetime ex_pandas (da_pre_date ex_a)) \<and>
   dt_date (to_datetime ex_pandas (da_post_date ex_a')) = dt_date (to_datetime ex_pandas (da_post_date ex_a)) \<and>
   valid_prepost_pair (flag_record ex_pandas ex_a') = valid_prepost_pair (flag_record ex_pandas ex_a) \<and>
   \<not> valid_prepost_pair (flag_record ex_pandas ex_c) \<and>
   da_pre_date ex_d = NaN \<and> has_pre (flag_record ex_pandas ex_d) \<and>
   has_post (flag_record ex_pandas ex_d) \<and> da_post_date (flag_record ex_pandas ex_d) = Some 5 \<and>
   \<not> valid_prepost_pair (flag_record ex_pandas ex_d)"
proof -
  have v: "valid_prepost_pair (flag_record ex_pandas ex_a)"
    by code_simp
  have d: "da_pre_date ex_a' \<noteq> da_pre_date ex_a" "da_post_date ex_a' \<noteq> da_post_date ex_a"
    by code_simp+
  have h: "da_pre_score ex_a' = da_pre_score ex_a \<and> da_post_score ex_a' = da_post_score ex_a \<and>
   dt_date (to_datetime ex_pandas (da_pre_date ex_a')) = dt_date (to_datetime ex_pandas (da_pre_date ex_a)) \<and>
   dt_date (to_datetime ex_pandas (da_post_date ex_a')) = dt_date (to_datetime ex_pandas (da_post_date ex_a))"
    by code_simp
  have c: "valid_prepost_pair (flag_record ex_pandas ex_a') = valid_prepost_pair (flag_record ex_pandas ex_a)"
    using C3_valid_prepost_pair[where x = ex_a and x' = ex_a' and pd = ex_pandas and pd' = ex_pandas] h
    by blast
  have n: "\<not> valid_prepost_pair (flag_record ex_pandas ex_c)"
    by code_simp
  have e: "da_pre_date ex_d = NaN" "has_pre (flag_record ex_pandas ex_d)"
    "has_post (flag_record ex_pandas ex_d)" "da_post_date (flag_record ex_pandas ex_d) = Some 5"
    by code_simp+
  have g: "\<not> valid_prepost_pair (flag_record ex_pandas ex_d)"
    using C3_valid_prepost_pair[where x = ex_d and pd = ex_pandas] e(1) by blast
  from v d h c n e g show ?thesis by blast
qed

section \<open>Claims about the Aggregator\<close>



text \<open>
  Claim C6. In the row of a region the completion rate is \<open>0.0\<close> when the session count
  is zero, and otherwise the post count divided by the session count, times one hundred,
  rounded to one decimal, all in \<^verbatim>\<open>float64\<close>: a number within \<open>0.05\<close> of the exact quotient
  times one hundred, up to the rounding errors of \<^verbatim>\<open>float64\<close>. Both rates of the row are
  finite numbers: no division of the row has a zero divisor, so none fails or yields
  \<^verbatim>\<open>inf\<close> or \<^verbatim>\<open>nan\<close>.
\<close>

theorem C6_region_completion_rate:
  assumes "compute_metrics df = Inr ms" and "m \<in> set (butlast ms)"
  shows "(Session_Count m = 0 \<longrightarrow> Completion_Rate m = Fin 0) \<and>
         (Session_Count m \<noteq> 0 \<longrightarrow>
            Completion_Rate m = round1 (np_mul (np_truediv (DA_Post m) (Session_Count m)) 100) \<and>
            (\<exists>q. Completion_Rate m = Fin q \<and>
               \<bar>q - of_int (DA_Post m) / of_int (Session_Count m) * 100\<bar>
                 \<le> 1 / 20 +
                    16 * eps64 * (\<bar>of_int (DA_Post m) / of_int (Session_Count m) * 100\<bar> + 1))) \<and>
         (\<exists>q. Completion_Rate m = Fin q) \<and> (\<exists>q. Wastage m = Fin q)"
proof -
  from compute_metrics_rows(2)[OF assms]
  obtain r sub where m: "m = region_row r sub" by blast
  have c: "Completion_Rate m =
     (if Session_Count m = 0 then Fin 0
      else round1 (np_mul (np_truediv (DA_Post m) (Session_Count m)) 100))"
    unfolding m by (rule region_row_completion)
  have w: "Wastage m =
     (if DA_Pre m = 0 then Fin 0
      else round1 (np_mul (np_truediv (DA_Pre m - DA_Post m) (DA_Pre m)) 100))"
    unfolding m by (rule region_row_wastage)
  have 1: "Session_Count m = 0 \<longrightarrow> Completion_Rate m = Fin 0"
    using c by simp
  have 2: "Session_Count m \<noteq> 0 \<longrightarrow>
            Completion_Rate m = round1 (np_mul (np_truediv (DA_Post m) (Session_Count m)) 100) \<and>
            (\<exists>q. Completion_Rate m = Fin q \<and>
               \<bar>q - of_int (DA_Post m) / of_int (Session_Count m) * 100\<bar>
                 \<le> 1 / 20 +
                    16 * eps64 * (\<bar>of_int (DA_Post m) / of_int (Session_Count m) * 100\<bar> + 1))"
  proof (rule impI)
    assume n: "Session_Count m \<noteq> 0"
    with c have e: "Completion_Rate m =
        round1 (np_mul (np_truediv (DA_Post m) (Session_Count m)) 100)"
      by simp
    from round1_rate_error[OF n, of "DA_Post m"]
    have "\<exists>q. Completion_Rate m = Fin q \<and>
               \<bar>q - of_int (DA_Post m) / of_int (Session_Count m) * 100\<bar>
                 \<le> 1 / 20 +
                    16 * eps64 * (\<bar>of_int (DA_Post m) / of_int (Session_Count m) * 100\<bar> + 1)"
      unfolding e .
    with e show "Completion_Rate m = round1 (np_mul (np_truediv (DA_Post m) (Session_Count m)) 100) \<and>
            (\<exists>q. Completion_Rate m = Fin q \<and>
               \<bar>q - of_int (DA_Post m) / of_int (Session_Count m) * 100\<bar>
                 \<le> 1 / 20 +
                    16 * eps64 * (\<bar>of_int (DA_Post m) / of_int (Session_Count m) * 100\<bar> + 1))"
      by (rule conjI)
  qed
  have 3: "\<exists>q. Completion_Rate m = Fin q"
  proof (cases "Session_Count m = 0")
    case True
    with 1 show ?thesis by blast
  next
    case False
    with 2 show ?thesis by blast
  qed
  have 4: "\<exists>q. Wastage m = Fin q"
  proof (cases "DA_Pre m = 0")
    case True
    with w show ?thesis by simp
  next
    case False
    with w have "Wastage m = round1 (np_mul (np_truediv (DA_Pre m - DA_Post m) (DA_Pre m)) 100)"
      by simp
    with round1_div_finite[OF False, of "DA_Pre m - DA_Post m"] show ?thesis by metis
  qed
  from 1 2 3 4 show ?thesis by (intro conjI)
qed

text \<open>
  The rows of \<open>ex_df\<close> and of \<open>ex_df_eighty\<close>: a region without eligible session has the
  rate \<open>0.0\<close>, and 23 post scores in 80 sessions give \<^verbatim>\<open>28.7\<close>, the rounding of the
  \<^verbatim>\<open>float64\<close> product \<^verbatim>\<open>28.749999999999996\<close>, where the exact quotient \<open>28.75\<close> would give
  \<^verbatim>\<open>28.8\<close>. The \<^verbatim>\<open>float64\<close> nearest to \<open>28.7\<close> is a little below it, so the rate is more than
  \<open>0.05\<close> from \<open>28.75\<close>, by less than the rounding errors allow.
\<close>

theorem C6_region_completion_rate_witness:
  "compute_metrics ex_df = Inr ex_rows \<and>
   ex_south \<in> set (butlast ex_rows) \<and> Session_Count ex_south = 0 \<and>
   Completion_Rate ex_south = Fin 0 \<and>
   compute_metrics ex_df_eighty = Inr ex_rows_eighty \<and>
   ex_east_eighty \<in> set (butlast ex_rows_eighty) \<and> Session_Count ex_east_eighty \<noteq> 0 \<and>
   Completion_Rate ex_east_eighty =
     round1 (np_mul (np_truediv (DA_Post ex_east_eighty) (Session_Count ex_east_eighty)) 100) \<and>
   DA_Post ex_east_eighty = 23 \<and> Session_Count ex_east_eighty = 80 \<and>
   Completion_Rate ex_east_eighty = Fin (fl64 (287 / 10)) \<and>
   \<bar>fl64 (287 / 10) -
      of_int (DA_Post ex_east_eighty) / of_int (Session_Count ex_east_eighty) * 100\<bar>
     \<le> 1 / 20 +
        16 * eps64 *
          (\<bar>of_int (DA_Post ex_east_eighty) / of_int (Session_Count ex_east_eighty) * 100\<bar> + 1) \<and>
   1 / 20 < \<bar>fl64 (287 / 10) - 23 / 80 * 100\<bar> \<and>
   round1 (np_mul (np_truediv 23 80) 100) = Fin (fl64 (287 / 10)) \<and>
   fl64 (287 / 10) = 8078331831595827 / 281474976710656 \<and>
   fl64 (287 / 10) \<noteq> fl64 (288 / 10) \<and>
   rint (23 / 80 * 100 * 10) = 288"
proof -
  have h: "compute_metrics ex_df = Inr ex_rows"
    by code_simp
  have s: "ex_south \<in> set (butlast ex_rows)"
    by (simp add: ex_rows_def)
  have s0: "Session_Count ex_south = 0"
    by (simp add: ex_south_def)
  have c0: "Completion_Rate ex_south = Fin 0"
    using C6_region_completion_rate[OF h s] s0 by blast
  have h': "compute_metrics ex_df_eighty = Inr ex_rows_eighty"
    by code_simp
  have n: "ex_east_eighty \<in> set (butlast ex_rows_eighty)"
    by (simp add: ex_rows_eighty_def)
  have n0: "Session_Count ex_east_eighty \<noteq> 0"
    by (simp add: ex_east_eighty_def)
  have c1: "Completion_Rate ex_east_eighty =
     round1 (np_mul (np_truediv (DA_Post ex_east_eighty) (Session_Count ex_east_eighty)) 100)"
    using C6_region_completion_rate[OF h' n] n0 by blast
  have d: "DA_Post ex_east_eighty = 23" "Session_Count ex_east_eighty = 80"
    "Completion_Rate ex_east_eighty = Fin (fl64 (287 / 10))"
    unfolding ex_east_eighty_def by (rule metrics.select_convs)+
  obtain q where q: "Completion_Rate ex_east_eighty = Fin q"
    "\<bar>q - of_int (DA_Post ex_east_eighty) / of_int (Session_Count ex_east_eighty) * 100\<bar>
     \<le> 1 / 20 +
        16 * eps64 *
          (\<bar>of_int (DA_Post ex_east_eighty) / of_int (Session_Count ex_east_eighty) * 100\<bar> + 1)"
    using C6_region_completion_rate[OF h' n] n0 by blast
  from q(1) d(3) have "q = fl64 (287 / 10)"
    by (simp only: np_float.inject)
  with q(2) have b: "\<bar>fl64 (287 / 10) -
      of_int (DA_Post ex_east_eighty) / of_int (Session_Count ex_east_eighty) * 100\<bar>
     \<le> 1 / 20 +
        16 * eps64 *
          (\<bar>of_int (DA_Post ex_east_eighty) / of_int (Session_Count ex_east_eighty) * 100\<bar> + 1)"
    by (simp only:)
  have b': "1 / 20 < \<bar>fl64 (287 / 10) - 23 / 80 * 100\<bar>"
    by code_simp
  have v1: "round1 (np_mul (np_truediv 23 80) 100) = Fin (fl64 (287 / 10))"
    by code_simp
  have v2: "fl64 (287 / 10) = 8078331831595827 / 281474976710656"
    by code_simp
  have v3: "fl64 (287 / 10) \<noteq> fl64 (288 / 10)"
    by code_simp
  have v4: "rint (23 / 80 * 100 * 10) = 288"
    by code_simp
  from h s s0 c0 h' n n0 c1 d b b' v1 v2 v3 v4 show ?thesis by (intro conjI)
qed

text \<open>
  Claim C2. In the \<^verbatim>\<open>TOTAL\<close> row the divisors of the completion rate and of the wastage
  are the maximum of one and the count, so both rates are finite numbers, within \<open>0.05\<close>
  of the exact clamped quotient times one hundred up to the rounding errors of
  \<^verbatim>\<open>float64\<close>. The rows of
  the regions give \<open>0.0\<close> on a zero divisor instead, which differs from the clamped quotient
  whenever the post count of the row is not zero: the clamping is in the \<^verbatim>\<open>TOTAL\<close> row
  only.
\<close>

theorem C2_total_row_clamped:
  assumes "compute_metrics df = Inr ms"
  shows "Completion_Rate (last ms) =
           round1 (np_mul (np_truediv (DA_Post (last ms)) (max 1 (Session_Count (last ms)))) 100) \<and>
         Wastage (last ms) =
           round1 (np_mul (np_truediv (DA_Pre (last ms) - DA_Post (last ms))
                     (max 1 (DA_Pre (last ms)))) 100) \<and>
         (\<exists>q. Completion_Rate (last ms) = Fin q \<and>
            \<bar>q - of_int (DA_Post (last ms)) / of_int (max 1 (Session_Count (last ms))) * 100\<bar>
              \<le> 1 / 20 +
                 16 * eps64 *
                   (\<bar>of_int (DA_Post (last ms)) / of_int (max 1 (Session_Count (last ms))) * 100\<bar> + 1)) \<and>
         (\<exists>q. Wastage (last ms) = Fin q \<and>
            \<bar>q - of_int (DA_Pre (last ms) - DA_Post (last ms)) / of_int (max 1 (DA_Pre (last ms))) * 100\<bar>
              \<le> 1 / 20 +
                 16 * eps64 *
                   (\<bar>of_int (DA_Pre (last ms) - DA_Post (last ms)) /
                      of_int (max 1 (DA_Pre (last ms))) * 100\<bar> + 1)) \<and>
         (\<forall>m\<in>set (butlast ms).
            (Session_Count m = 0 \<longrightarrow> Completion_Rate m = Fin 0) \<and>
            (DA_Pre m = 0 \<longrightarrow> Wastage m = Fin 0) \<and>
            (Session_Count m = 0 \<and> DA_Post m \<noteq> 0 \<longrightarrow>
               Completion_Rate m \<noteq>
                 round1 (np_mul (np_truediv (DA_Post m) (max 1 (Session_Count m))) 100)) \<and>
            (DA_Pre m = 0 \<and> DA_Post m \<noteq> 0 \<longrightarrow>
               Wastage m \<noteq>
                 round1 (np_mul (np_truediv (DA_Pre m - DA_Post m) (max 1 (DA_Pre m))) 100)))"
proof -
  have t: "last ms = total_row df"
    using assms by (rule compute_metrics_rows(1))
  have c: "Completion_Rate (last ms) =
           round1 (np_mul (np_truediv (DA_Post (last ms)) (max 1 (Session_Count (last ms)))) 100)"
    unfolding t total_row_rates total_row_fields by (rule refl)
  have w: "Wastage (last ms) =
           round1 (np_mul (np_truediv (DA_Pre (last ms) - DA_Post (last ms))
                     (max 1 (DA_Pre (last ms)))) 100)"
    unfolding t total_row_rates total_row_fields by (rule refl)
  have n1: "max 1 (Session_Count (last ms)) \<noteq> 0" and n2: "max 1 (DA_Pre (last ms)) \<noteq> 0"
    by simp_all
  from round1_rate_error[OF n1, of "DA_Post (last ms)"]
  have c': "(\<exists>q. Completion_Rate (last ms) = Fin q \<and>
            \<bar>q - of_int (DA_Post (last ms)) / of_int (max 1 (Session_Count (last ms))) * 100\<bar>
              \<le> 1 / 20 +
                 16 * eps64 *
                   (\<bar>of_int (DA_Post (last ms)) / of_int (max 1 (Session_Count (last ms))) * 100\<bar> + 1))"
    unfolding c .
  from round1_rate_error[OF n2, of "DA_Pre (last ms) - DA_Post (last ms)"]
  have w': "(\<exists>q. Wastage (last ms) = Fin q \<and>
            \<bar>q - of_int (DA_Pre (last ms) - DA_Post (last ms)) / of_int (max 1 (DA_Pre (last ms))) * 100\<bar>
              \<le> 1 / 20 +
                 16 * eps64 *
                   (\<bar>of_int (DA_Pre (last ms) - DA_Post (last ms)) /
                      of_int (max 1 (DA_Pre (last ms))) * 100\<bar> + 1))"
    unfolding w .
  have r: "(Session_Count m = 0 \<longrightarrow> Completion_Rate m = Fin 0) \<and>
            (DA_Pre m = 0 \<longrightarrow> Wastage m = Fin 0) \<and>
            (Session_Count m = 0 \<and> DA_Post m \<noteq> 0 \<longrightarrow>
               Completion_Rate m \<noteq>
                 round1 (np_mul (np_truediv (DA_Post m) (max 1 (Session_Count m))) 100)) \<and>
            (DA_Pre m = 0 \<and> DA_Post m \<noteq> 0 \<longrightarrow>
               Wastage m \<noteq>
                 round1 (np_mul (np_truediv (DA_Pre m - DA_Post m) (max 1 (DA_Pre m))) 100))"
    if "m \<in> set (butlast ms)" for m
  proof -
    from compute_metrics_rows(2)[OF assms that]
    obtain r sub where m: "m = region_row r sub" by blast
    have cm: "Completion_Rate m =
       (if Session_Count m = 0 then Fin 0
        else round1 (np_mul (np_truediv (DA_Post m) (Session_Count m)) 100))"
      unfolding m by (rule region_row_completion)
    have wm: "Wastage m =
       (if DA_Pre m = 0 then Fin 0
        else round1 (np_mul (np_truediv (DA_Pre m - DA_Post m) (DA_Pre m)) 100))"
      unfolding m by (rule region_row_wastage)
    have 1: "Session_Count m = 0 \<longrightarrow> Completion_Rate m = Fin 0"
      using cm by simp
    have 2: "DA_Pre m = 0 \<longrightarrow> Wastage m = Fin 0"
      using wm by simp
    have 3: "Session_Count m = 0 \<and> DA_Post m \<noteq> 0 \<longrightarrow>
               Completion_Rate m \<noteq>
                 round1 (np_mul (np_truediv (DA_Post m) (max 1 (Session_Count m))) 100)"
    proof (rule impI)
      assume a: "Session_Count m = 0 \<and> DA_Post m \<noteq> 0"
      then have e: "max 1 (Session_Count m) = 1" by simp
      from a have "round1 (np_mul (np_truediv (DA_Post m) 1) 100) \<noteq> Fin 0"
        using round1_div_one_nonzero[of "DA_Post m"] by blast
      with a 1 show "Completion_Rate m \<noteq>
                 round1 (np_mul (np_truediv (DA_Post m) (max 1 (Session_Count m))) 100)"
        unfolding e by metis
    qed
    have 4: "DA_Pre m = 0 \<and> DA_Post m \<noteq> 0 \<longrightarrow>
               Wastage m \<noteq>
                 round1 (np_mul (np_truediv (DA_Pre m - DA_Post m) (max 1 (DA_Pre m))) 100)"
    proof (rule impI)
      assume a: "DA_Pre m = 0 \<and> DA_Post m \<noteq> 0"
      then have e: "max 1 (DA_Pre m) = 1" and d: "DA_Pre m - DA_Post m = - DA_Post m"
        by simp_all
      from a have "- DA_Post m \<noteq> 0" by simp
      then have "round1 (np_mul (np_truediv (- DA_Post m) 1) 100) \<noteq> Fin 0"
        by (rule round1_div_one_nonzero)
      with a 2 show "Wastage m \<noteq>
                 round1 (np_mul (np_truediv (DA_Pre m - DA_Post m) (max 1 (DA_Pre m))) 100)"
        unfolding e d by metis
    qed
    from 1 2 3 4 show ?thesis by (intro conjI)
  qed
  from c w c' w' r show ?thesis by blast
qed

text \<open>
  The table of \<open>ex_df_excl\<close> has no eligible session and no pre score: its \<^verbatim>\<open>TOTAL\<close> row
  divides by one, the row of its region gives \<open>0.0\<close>. In the table of \<open>ex_df_third\<close> the
  rates of the \<^verbatim>\<open>TOTAL\<close> row need rounding: two thirds is \<^verbatim>\<open>66.7\<close>, one third \<^verbatim>\<open>33.3\<close>.
\<close>

theorem C2_total_row_clamped_witness:
  "compute_metrics ex_df_excl = Inr ex_rows_excl \<and>
   Session_Count (last ex_rows_excl) = 0 \<and> DA_Pre (last ex_rows_excl) = 0 \<and>
   DA_Post (last ex_rows_excl) = 1 \<and>
   Completion_Rate (last ex_rows_excl) =
     round1 (np_mul (np_truediv (DA_Post (last ex_rows_excl))
               (max 1 (Session_Count (last ex_rows_excl)))) 100) \<and>
   Completion_Rate (last ex_rows_excl) = Fin 100 \<and>
   Wastage (last ex_rows_excl) =
     round1 (np_mul (np_truediv (DA_Pre (last ex_rows_excl) - DA_Post (last ex_rows_excl))
               (max 1 (DA_Pre (last ex_rows_excl)))) 100) \<and>
   Wastage (last ex_rows_excl) = Fin (- 100) \<and>
   ex_south_excl \<in> set (butlast ex_rows_excl) \<and>
   Session_Count ex_south_excl = 0 \<and> DA_Pre ex_south_excl = 0 \<and> DA_Post ex_south_excl = 1 \<and>
   Completion_Rate ex_south_excl = Fin 0 \<and> Wastage ex_south_excl = Fin 0 \<and>
   compute_metrics ex_df_third = Inr ex_rows_third \<and>
   Session_Count (last ex_rows_third) = 3 \<and> DA_Pre (last ex_rows_third) = 3 \<and>
   DA_Post (last ex_rows_third) = 2 \<and>
   Completion_Rate (last ex_rows_third) = round1 (np_mul (np_truediv 2 (max 1 3)) 100) \<and>
   Completion_Rate (last ex_rows_third) = Fin (fl64 (667 / 10)) \<and>
   Wastage (last ex_rows_third) = round1 (np_mul (np_truediv (3 - 2) (max 1 3)) 100) \<and>
   Wastage (last ex_rows_third) = Fin (fl64 (333 / 10)) \<and>
   \<bar>fl64 (667 / 10) -
      of_int (DA_Post (last ex_rows_third)) /
        of_int (max 1 (Session_Count (last ex_rows_third))) * 100\<bar>
     \<le> 1 / 20 +
        16 * eps64 *
          (\<bar>of_int (DA_Post (last ex_rows_third)) /
             of_int (max 1 (Session_Count (last ex_rows_third))) * 100\<bar> + 1) \<and>
   fl64 (667 / 10) = 4693595236650189 / 70368744177664 \<and>
   fl64 (667 / 10) \<noteq> fl64 (666 / 10)"
proof -
  have h: "compute_metrics ex_df_excl = Inr ex_rows_excl"
    by code_simp
  note c = C2_total_row_clamped[OF h]
  have t: "Session_Count (last ex_rows_excl) = 0" "DA_Pre (last ex_rows_excl) = 0"
    "DA_Post (last ex_rows_excl) = 1" "Completion_Rate (last ex_rows_excl) = Fin 100"
    "Wastage (last ex_rows_excl) = Fin (- 100)"
    by (simp_all add: ex_rows_excl_def ex_total_excl_def)
  have s: "ex_south_excl \<in> set (butlast ex_rows_excl)"
    by (simp add: ex_rows_excl_def)
  have v: "Session_Count ex_south_excl = 0" "DA_Pre ex_south_excl = 0" "DA_Post ex_south_excl = 1"
    by (simp_all add: ex_south_excl_def)
  have c1: "Completion_Rate (last ex_rows_excl) =
     round1 (np_mul (np_truediv (DA_Post (last ex_rows_excl))
               (max 1 (Session_Count (last ex_rows_excl)))) 100)"
    using c by (rule conjunct1)
  have c2: "Wastage (last ex_rows_excl) =
     round1 (np_mul (np_truediv (DA_Pre (last ex_rows_excl) - DA_Post (last ex_rows_excl))
               (max 1 (DA_Pre (last ex_rows_excl)))) 100)"
    using c by blast
  have r: "Completion_Rate ex_south_excl = Fin 0" "Wastage ex_south_excl = Fin 0"
    using c s v by blast+
  have h': "compute_metrics ex_df_third = Inr ex_rows_third"
    by code_simp
  note d = C2_total_row_clamped[OF h']
  have u: "Session_Count (last ex_rows_third) = 3" "DA_Pre (last ex_rows_third) = 3"
    "DA_Post (last ex_rows_third) = 2"
    "Completion_Rate (last ex_rows_third) = Fin (fl64 (667 / 10))"
    "Wastage (last ex_rows_third) = Fin (fl64 (333 / 10))"
    by (simp_all add: ex_rows_third_def ex_north_third_def)
  have d1: "Completion_Rate (last ex_rows_third) = round1 (np_mul (np_truediv 2 (max 1 3)) 100)"
    using d unfolding u(1,2,3) by (rule conjunct1)
  have d2: "Wastage (last ex_rows_third) = round1 (np_mul (np_truediv (3 - 2) (max 1 3)) 100)"
    using d unfolding u(1,2,3) by blast
  obtain q where q: "Completion_Rate (last ex_rows_third) = Fin q"
    "\<bar>q - of_int (DA_Post (last ex_rows_third)) /
        of_int (max 1 (Session_Count (last ex_rows_third))) * 100\<bar>
     \<le> 1 / 20 +
        16 * eps64 *
          (\<bar>of_int (DA_Post (last ex_rows_third)) /
             of_int (max 1 (Session_Count (last ex_rows_third))) * 100\<bar> + 1)"
    using d by blast
  from q(1) u(4) have "q = fl64 (667 / 10)"
    by (simp only: np_float.inject)
  with q(2) have b: "\<bar>fl64 (667 / 10) -
      of_int (DA_Post (last ex_rows_third)) /
        of_int (max 1 (Session_Count (last ex_rows_third))) * 100\<bar>
     \<le> 1 / 20 +
        16 * eps64 *
          (\<bar>of_int (DA_Post (last ex_rows_third)) /
             of_int (max 1 (Session_Count (last ex_rows_third))) * 100\<bar> + 1)"
    by (simp only:)
  have f1: "fl64 (667 / 10) = 4693595236650189 / 70368744177664"
    by code_simp
  have f2: "fl64 (667 / 10) \<noteq> fl64 (666 / 10)"
    by code_simp
  from h t(1,2,3) c1 t(4) c2 t(5) s v r h' u(1,2,3) d1 u(4) d2 u(5) b f1 f2
  show ?thesis by (intro conjI)
qed






text \<open>
  Claim C5. The unique counts of the \<^verbatim>\<open>TOTAL\<close> row are the counts of the distinct values
  over the whole frame, but they are not always below the sum over the rows of the
  regions when a student or an ignator is in two regions. The list of the regions is made
  of the region column with \<^verbatim>\<open>Unknown\<close> for a missing region, the subset of a row is taken
  from the region column as it is, so the records without region are in no row of a
  region, and the row \<^verbatim>\<open>Unknown\<close> made for them counts none of them. In \<open>ex_df_null\<close>
  student \<^verbatim>\<open>s1\<close> and ignator \<^verbatim>\<open>i1\<close> are in the regions \<^verbatim>\<open>North\<close> and \<^verbatim>\<open>South\<close>, and student
  \<^verbatim>\<open>s3\<close> and ignator \<^verbatim>\<open>i3\<close> are in the record without region only: the rows of the
  regions count 2, 1 and 0 students and as many ignators, the \<^verbatim>\<open>TOTAL\<close> row counts 3,
  which is the sum and not less.
\<close>

theorem C5_failing_input:
  "ex_df_null = map (flag_record ex_pandas) [ex_a, ex_b, ex_c, ex_d] \<and>
   map region ex_df_null = [Str ''North'', Str ''North'', Str ''South'', NaN] \<and>
   map student_id ex_df_null = [Str ''s1'', Str ''s2'', Str ''s1'', Str ''s3''] \<and>
   map ignator_id ex_df_null = [Str ''i1'', Str ''i2'', Str ''i1'', Str ''i3''] \<and>
   regions ex_df_null = [Str ''North'', Str ''South'', Str ''Unknown''] \<and>
   region_sub ex_df_null (Str ''Unknown'') = [] \<and>
   compute_metrics ex_df_null = Inr ex_rows_null \<and>
   map Region ex_rows_null = [Str ''North'', Str ''South'', Str ''Unknown'', Str ''TOTAL''] \<and>
   map Unique_Students ex_rows_null = [2, 1, 0, 3] \<and>
   map Unique_Ignators ex_rows_null = [2, 1, 0, 3] \<and>
   Unique_Students (last ex_rows_null) = nunique (map student_id ex_df_null) \<and>
   Unique_Ignators (last ex_rows_null) = nunique (map ignator_id ex_df_null) \<and>
   sum_list (map Unique_Students (butlast ex_rows_null)) = 3 \<and>
   sum_list (map Unique_Ignators (butlast ex_rows_null)) = 3 \<and>
   \<not> Unique_Students (last ex_rows_null) < sum_list (map Unique_Students (butlast ex_rows_null)) \<and>
   \<not> Unique_Ignators (last ex_rows_null) < sum_list (map Unique_Ignators (butlast ex_rows_null))"
proof -
  have f: "ex_df_null = map (flag_record ex_pandas) [ex_a, ex_b, ex_c, ex_d]"
    unfolding ex_df_null_def apply_business_rules_def by (rule refl)
  have r: "map region ex_df_null = [Str ''North'', Str ''North'', Str ''South'', NaN]"
    by code_simp
  have s: "map student_id ex_df_null = [Str ''s1'', Str ''s2'', Str ''s1'', Str ''s3'']"
    by code_simp
  have i: "map ignator_id ex_df_null = [Str ''i1'', Str ''i2'', Str ''i1'', Str ''i3'']"
    by code_simp
  have g: "regions ex_df_null = [Str ''North'', Str ''South'', Str ''Unknown'']"
    by code_simp
  have u: "region_sub ex_df_null (Str ''Unknown'') = []"
    by code_simp
  have h: "compute_metrics ex_df_null = Inr ex_rows_null"
    by code_simp
  have n: "map Region ex_rows_null = [Str ''North'', Str ''South'', Str ''Unknown'', Str ''TOTAL'']"
    by code_simp
  have v: "map Unique_Students ex_rows_null = [2, 1, 0, 3]"
    "map Unique_Ignators ex_rows_null = [2, 1, 0, 3]"
    by code_simp+
  have t: "Unique_Students (last ex_rows_null) = nunique (map student_id ex_df_null)"
    "Unique_Ignators (last ex_rows_null) = nunique (map ignator_id ex_df_null)"
    by code_simp+
  have w: "sum_list (map Unique_Students (butlast ex_rows_null)) = 3"
    "sum_list (map Unique_Ignators (butlast ex_rows_null)) = 3"
    by code_simp+
  have l: "\<not> Unique_Students (last ex_rows_null) < sum_list (map Unique_Students (butlast ex_rows_null))"
    "\<not> Unique_Ignators (last ex_rows_null) < sum_list (map Unique_Ignators (butlast ex_rows_null))"
    by code_simp+
  from f r s i g u h n v t w l show ?thesis by (intro conjI)
qed

text \<open>
  Claim C9, as the code has it. Let the aggregation end in a table of a frame that holds
  a record without region. The record is in the subset of no row of a region. The table
  has a row \<^verbatim>\<open>Unknown\<close>, made of the records whose region is the text \<^verbatim>\<open>Unknown\<close>: of no
  record, with every count zero, both rates \<open>0.0\<close> and an empty list, when no record has
  that text as its region. The \<^verbatim>\<open>TOTAL\<close> row is made of all records: its pre and post
  counts are the sums over the rows of the regions plus the counts over the records
  without region, so the sum over the rows of the regions is strictly below the
  \<^verbatim>\<open>TOTAL\<close> as soon as the record has the score.
\<close>

theorem C9_null_region_records:
  assumes "compute_metrics df = Inr ms" and "x \<in> set df" and "region x = NaN"
  shows "(\<forall>m\<in>set (butlast ms).
            m = region_row (Region m) (region_sub df (Region m)) \<and>
            x \<notin> set (region_sub df (Region m))) \<and>
         (\<exists>m\<in>set (butlast ms).
            Region m = Str ''Unknown'' \<and>
            m = region_row (Str ''Unknown'') (filter (\<lambda>y. region y = Str ''Unknown'') df)) \<and>
         ((\<forall>y\<in>set df. region y \<noteq> Str ''Unknown'') \<longrightarrow>
            \<lparr> Region = Str ''Unknown'', Unique_Students = 0, Unique_Ignators = 0,
              Session_Count = 0, DA_Pre = 0, DA_Post = 0, Completion_Rate = Fin 0,
              DA_Gap = 0, Wastage = Fin 0, No_DA_Count = 0, No_DA_List = [] \<rparr>
              \<in> set (butlast ms)) \<and>
         last ms = total_row df \<and>
         DA_Pre (last ms) =
           sum_list (map DA_Pre (butlast ms)) +
           int (length (filter (\<lambda>y. region y = NaN \<and> has_pre y) df)) \<and>
         DA_Post (last ms) =
           sum_list (map DA_Post (butlast ms)) +
           int (length (filter (\<lambda>y. region y = NaN \<and> has_post y) df)) \<and>
         (has_pre x \<longrightarrow> sum_list (map DA_Pre (butlast ms)) < DA_Pre (last ms)) \<and>
         (has_post x \<longrightarrow> sum_list (map DA_Post (butlast ms)) < DA_Post (last ms))"
proof -
  have 1: "\<forall>m\<in>set (butlast ms).
            m = region_row (Region m) (region_sub df (Region m)) \<and>
            x \<notin> set (region_sub df (Region m))"
  proof
    fix m
    assume "m \<in> set (butlast ms)"
    from compute_metrics_rows(2)[OF assms(1) this]
    have "m = region_row (Region m) (region_sub df (Region m))"
      by (rule conjunct1)
    moreover have "x \<notin> set (region_sub df (Region m))"
      unfolding region_sub_def using assms(3) by (simp add: cell_eq_def)
    ultimately show "m = region_row (Region m) (region_sub df (Region m)) \<and>
            x \<notin> set (region_sub df (Region m))"
      by (rule conjI)
  qed
  from compute_metrics_rows(3)[OF assms(1)]
  obtain rs where rs: "set rs = set (regions df)"
    "butlast ms = map (\<lambda>r. region_row r (region_sub df r)) rs"
    by blast
  have "NaN \<in> region ` set df"
    using assms(2,3) by (metis imageI)
  then have "Str ''Unknown'' \<in> set (regions df)"
    unfolding set_regions by simp
  then have u: "Str ''Unknown'' \<in> set rs"
    unfolding rs(1) .
  define m where "m = region_row (Str ''Unknown'') (region_sub df (Str ''Unknown''))"
  have mm: "m \<in> set (butlast ms)"
    unfolding rs(2) m_def using u by (simp only: set_map image_iff) (rule bexI, rule refl)
  have ne: "Str ''Unknown'' \<noteq> NaN"
    by simp
  have me: "m = region_row (Str ''Unknown'') (filter (\<lambda>y. region y = Str ''Unknown'') df)"
    unfolding m_def region_sub_filter[OF ne] by (rule refl)
  have rm: "Region m = Str ''Unknown''"
    unfolding m_def by (rule region_row_fields)
  have 2: "\<exists>m\<in>set (butlast ms).
            Region m = Str ''Unknown'' \<and>
            m = region_row (Str ''Unknown'') (filter (\<lambda>y. region y = Str ''Unknown'') df)"
    using mm rm me by blast
  have 3: "(\<forall>y\<in>set df. region y \<noteq> Str ''Unknown'') \<longrightarrow>
            \<lparr> Region = Str ''Unknown'', Unique_Students = 0, Unique_Ignators = 0,
              Session_Count = 0, DA_Pre = 0, DA_Post = 0, Completion_Rate = Fin 0,
              DA_Gap = 0, Wastage = Fin 0, No_DA_Count = 0, No_DA_List = [] \<rparr>
              \<in> set (butlast ms)"
  proof (rule impI)
    assume that: "\<forall>y\<in>set df. region y \<noteq> Str ''Unknown''"
    have f: "filter (\<lambda>y. region y = Str ''Unknown'') df = []"
      unfolding filter_empty_conv using that by blast
    have "m = region_row (Str ''Unknown'') []"
      unfolding me f by (rule refl)
    then have m0: "m = \<lparr> Region = Str ''Unknown'', Unique_Students = 0, Unique_Ignators = 0,
              Session_Count = 0, DA_Pre = 0, DA_Post = 0, Completion_Rate = Fin 0,
              DA_Gap = 0, Wastage = Fin 0, No_DA_Count = 0, No_DA_List = [] \<rparr>"
      unfolding region_row_empty .
    show "\<lparr> Region = Str ''Unknown'', Unique_Students = 0, Unique_Ignators = 0,
              Session_Count = 0, DA_Pre = 0, DA_Post = 0, Completion_Rate = Fin 0,
              DA_Gap = 0, Wastage = Fin 0, No_DA_Count = 0, No_DA_List = [] \<rparr>
              \<in> set (butlast ms)"
      using mm unfolding m0 .
  qed
  have 4: "last ms = total_row df"
    using assms(1) by (rule compute_metrics_rows(1))
  note 5 = total_count_split(1)[OF assms(1)]
  note 6 = total_count_split(2)[OF assms(1)]
  have 7: "has_pre x \<longrightarrow> sum_list (map DA_Pre (butlast ms)) < DA_Pre (last ms)"
  proof (rule impI)
    assume that: "has_pre x"
    have "x \<in> set (filter (\<lambda>y. region y = NaN \<and> has_pre y) df)"
      using assms(2,3) that by simp
    then have "0 < length (filter (\<lambda>y. region y = NaN \<and> has_pre y) df)"
      by (rule length_pos_if_in_set)
    with 5 show "sum_list (map DA_Pre (butlast ms)) < DA_Pre (last ms)" by linarith
  qed
  have 8: "has_post x \<longrightarrow> sum_list (map DA_Post (butlast ms)) < DA_Post (last ms)"
  proof (rule impI)
    assume that: "has_post x"
    have "x \<in> set (filter (\<lambda>y. region y = NaN \<and> has_post y) df)"
      using assms(2,3) that by simp
    then have "0 < length (filter (\<lambda>y. region y = NaN \<and> has_post y) df)"
      by (rule length_pos_if_in_set)
    with 6 show "sum_list (map DA_Post (butlast ms)) < DA_Post (last ms)" by linarith
  qed
  from 1 2 3 4 5 6 7 8 show ?thesis by (intro conjI)
qed

theorem C9_null_region_records_witness:
  "compute_metrics ex_df_null = Inr ex_rows_null \<and>
   flag_record ex_pandas ex_d \<in> set ex_df_null \<and>
   region (flag_record ex_pandas ex_d) = NaN \<and>
   list_all (\<lambda>m. m = region_row (Region m) (region_sub ex_df_null (Region m)) \<and>
                 flag_record ex_pandas ex_d \<notin> set (region_sub ex_df_null (Region m)))
     (butlast ex_rows_null) \<and>
   list_all (\<lambda>y. region y \<noteq> Str ''Unknown'') ex_df_null \<and>
   ex_unknown \<in> set (butlast ex_rows_null) \<and>
   last ex_rows_null = total_row ex_df_null \<and>
   DA_Pre (last ex_rows_null) =
     sum_list (map DA_Pre (butlast ex_rows_null)) +
     int (length (filter (\<lambda>y. region y = NaN \<and> has_pre y) ex_df_null)) \<and>
   has_pre (flag_record ex_pandas ex_d) \<and>
   sum_list (map DA_Pre (butlast ex_rows_null)) < DA_Pre (last ex_rows_null) \<and>
   has_post (flag_record ex_pandas ex_d) \<and>
   sum_list (map DA_Post (butlast ex_rows_null)) < DA_Post (last ex_rows_null) \<and>
   sum_list (map DA_Pre (butlast ex_rows_null)) = 2 \<and> DA_Pre (last ex_rows_null) = 3"
proof -
  have h: "compute_metrics ex_df_null = Inr ex_rows_null"
    by code_simp
  have x: "flag_record ex_pandas ex_d \<in> set ex_df_null"
    by (simp add: ex_df_null_def apply_business_rules_def)
  have r: "region (flag_record ex_pandas ex_d) = NaN"
    by code_simp
  note c = C9_null_region_records[OF h x r]
  have 1: "list_all (\<lambda>m. m = region_row (Region m) (region_sub ex_df_null (Region m)) \<and>
                 flag_record ex_pandas ex_d \<notin> set (region_sub ex_df_null (Region m)))
     (butlast ex_rows_null)"
    unfolding list_all_iff using c by (rule conjunct1)
  have u: "list_all (\<lambda>y. region y \<noteq> Str ''Unknown'') ex_df_null"
    by code_simp
  then have u': "\<forall>y\<in>set ex_df_null. region y \<noteq> Str ''Unknown''"
    unfolding list_all_iff .
  have 2: "ex_unknown \<in> set (butlast ex_rows_null)"
    unfolding ex_unknown_def using c u' by blast
  have 3: "last ex_rows_null = total_row ex_df_null"
    using c by blast
  have 4: "DA_Pre (last ex_rows_null) =
     sum_list (map DA_Pre (butlast ex_rows_null)) +
     int (length (filter (\<lambda>y. region y = NaN \<and> has_pre y) ex_df_null))"
    using c by blast
  have p: "has_pre (flag_record ex_pandas ex_d)" and q: "has_post (flag_record ex_pandas ex_d)"
    by code_simp+
  have 5: "sum_list (map DA_Pre (butlast ex_rows_null)) < DA_Pre (last ex_rows_null)"
    using c p by blast
  have 6: "sum_list (map DA_Post (butlast ex_rows_null)) < DA_Post (last ex_rows_null)"
    using c q by blast
  have v: "sum_list (map DA_Pre (butlast ex_rows_null)) = 2" "DA_Pre (last ex_rows_null) = 3"
    by (simp_all add: ex_rows_null_def ex_north_def ex_south_def ex_unknown_def ex_total_null_def)
  from h x r 1 u 2 3 4 p 5 q 6 v show ?thesis by (intro conjI)
qed

text \<open>
  The claim as stated fails when a record has the text \<^verbatim>\<open>Unknown\<close> as its region: the row
  \<^verbatim>\<open>Unknown\<close> is then made of that record, not of the empty subset.
\<close>

theorem C9_counterexample:
  "compute_metrics ex_df_lit = Inr ex_rows_lit \<and>
   list_ex (\<lambda>x. region x = NaN) ex_df_lit \<and>
   butlast ex_rows_lit = [ex_unknown_lit] \<and>
   Region ex_unknown_lit = Str ''Unknown'' \<and>
   Unique_Students ex_unknown_lit = 1 \<and> Unique_Ignators ex_unknown_lit = 1 \<and>
   Session_Count ex_unknown_lit = 1 \<and> DA_Pre ex_unknown_lit = 1 \<and>
   Wastage ex_unknown_lit = Fin 100 \<and>
   ex_unknown_lit \<noteq> region_row (Str ''Unknown'') []"
proof -
  have h: "compute_metrics ex_df_lit = Inr ex_rows_lit"
    by code_simp
  have n: "list_ex (\<lambda>x. region x = NaN) ex_df_lit"
    by code_simp
  have b: "butlast ex_rows_lit = [ex_unknown_lit]"
    by (simp add: ex_rows_lit_def)
  have v: "Region ex_unknown_lit = Str ''Unknown''" "Unique_Students ex_unknown_lit = 1"
    "Unique_Ignators ex_unknown_lit = 1" "Session_Count ex_unknown_lit = 1"
    "DA_Pre ex_unknown_lit = 1" "Wastage ex_unknown_lit = Fin 100"
    by (simp_all add: ex_unknown_lit_def)
  have "DA_Pre (region_row (Str ''Unknown'') []) = 0"
    unfolding region_row_empty by simp
  with v(5) have d: "ex_unknown_lit \<noteq> region_row (Str ''Unknown'') []"
    by auto
  from h n b v d show ?thesis by (intro conjI)
qed

end
